theory Spec2Isabelle
  imports Complex_Main "HOL-Library.Stream" "HOL-Library.Multiset"
begin

section \<open>The trading environment \<open>MtEnv\<close> of gym-mtsim\<close>

text \<open>
  A shallow embedding of \<^verbatim>\<open>gym_mtsim/envs/mt_env.py\<close>. Python floats are read as
  real numbers (exact arithmetic), Python integers as \<open>int\<close>, datetimes as integer time
  stamps with integer differences. Exceptions are values of \<open>py_error\<close>, and a method
  that can raise returns \<open>py_error + 'a\<close>.
\<close>

subsection \<open>Data\<close>

type_synonym symbol = string

datatype py_error =
    IndexError
  | KeyError
  | ZeroDivisionError
  | OverflowError
  | ValueError string

datatype order_type = Buy | Sell

text \<open>The attributes of a simulator \<^verbatim>\<open>Order\<close> that the environment reads.\<close>

record order =
  order_id :: nat
  order_symbol :: symbol
  order_kind :: order_type
  order_volume :: real
  order_fee :: real
  order_margin :: real
  order_profit :: real
  order_entry_price :: real

record symbol_info =
  volume_min :: real
  volume_max :: real
  volume_step :: real

text \<open>
  Modelled from the spec: the state of the position/margin simulator
  (\<^verbatim>\<open>gym_mtsim/simulator\<close>), of which the environment reads and writes the attributes
  below. \<open>internal\<close> stands for whatever else the simulator keeps (its orders, the
  price data); the environment reaches it through the simulator's methods only.
\<close>

record 'x simulator =
  hedge :: bool
  balance :: real
  equity :: real
  margin :: real
  current_time :: int
  symbols_info :: "symbol \<rightharpoonup> symbol_info"
  internal :: 'x

text \<open>
  Modelled from the spec: the methods of the simulator that the environment calls
  (``\<open>symbolOrders\<close>, \<open>createOrder \<dots> | fails with OrderValidationError\<close>, \<open>closeOrder\<close>,
  \<open>advanceTime\<close>, readable \<open>freeMargin\<close>, \<open>marginLevel\<close>''). Their bodies are not part of the
  environment, so they are parameters. \<open>create_order\<close> returns the exception it raised
  or the order it created, together with the simulator state it leaves behind.
\<close>

record 'x mt_simulator =
  symbol_orders :: "'x simulator \<Rightarrow> symbol \<Rightarrow> order list"
  create_order :: "'x simulator \<Rightarrow> order_type \<Rightarrow> symbol \<Rightarrow> real \<Rightarrow> real
                     \<Rightarrow> (py_error + order) \<times> 'x simulator"
  close_order :: "'x simulator \<Rightarrow> order \<Rightarrow> order \<times> 'x simulator"
  tick :: "'x simulator \<Rightarrow> int \<Rightarrow> 'x simulator"
  free_margin :: "'x simulator \<Rightarrow> real"
  margin_level :: "'x simulator \<Rightarrow> real"

text \<open>\<^verbatim>\<open>fee: Union[float, Callable[[str], float]]\<close>\<close>

datatype fee_spec = FixedFee real | SymbolFee "symbol \<Rightarrow> real"

text \<open>
  The dictionary \<^verbatim>\<open>orders_info[symbol]\<close>; \<^verbatim>\<open>float('nan')\<close> and \<^verbatim>\<open>None\<close> are \<open>None\<close>.
\<close>

record order_intent =
  oi_order_id :: "nat option"
  oi_symbol :: symbol
  oi_hold_probability :: real
  oi_hold :: bool
  oi_volume :: real
  oi_capacity :: int
  oi_order_type :: "order_type option"
  oi_modified_volume :: real
  oi_fee :: "real option"
  oi_margin :: "real option"
  oi_error :: string

text \<open>An entry of \<^verbatim>\<open>closed_orders_info[symbol]\<close>.\<close>

record closed_order =
  co_order_id :: nat
  co_symbol :: symbol
  co_order_type :: order_type
  co_volume :: real
  co_fee :: real
  co_margin :: real
  co_profit :: real
  co_close_probability :: real

text \<open>
  The dictionary built by \<^verbatim>\<open>_create_info\<close>; the keyword entries are absent (\<open>None\<close>)
  in the record that \<^verbatim>\<open>reset\<close> creates.
\<close>

record info =
  info_orders :: "(symbol \<rightharpoonup> order_intent) option"
  info_closed_orders :: "(symbol \<Rightarrow> closed_order list) option"
  info_step_reward :: "real option"
  info_balance :: real
  info_equity :: real
  info_margin :: real
  info_free_margin :: real
  info_margin_level :: real

record observation =
  obs_balance :: "real list"
  obs_equity :: "real list"
  obs_margin :: "real list"
  obs_features :: "real list list"
  obs_orders :: "real list list list"

text \<open>
  The attributes of an \<^verbatim>\<open>MtEnv\<close> object. The first group is set by \<^verbatim>\<open>__init__\<close> and
  never changed afterwards, the second is the episode state. The generator
  \<^verbatim>\<open>np_rng\<close> is the stream of the raw outputs it has still to deliver.
  \<^verbatim>\<open>symbol_max_orders\<close> is a natural number: the shape of the orders space that
  \<^verbatim>\<open>__init__\<close> builds admits no negative value. \<^verbatim>\<open>signal_features\<close> is the array that
  \<^verbatim>\<open>__init__\<close> computes from the prices of the simulator, row by row.
\<close>

record 'x mt_env =
  original_simulator :: "'x simulator"
  trading_symbols :: "symbol list"
  window_size :: int
  time_points :: "int list"
  fee :: fee_spec
  symbol_max_orders :: nat
  signal_features :: "real list list"
  preprocess :: "(real \<Rightarrow> real) option"
  randomize_initial_balance :: bool
  initial_balance_kwargs :: "real \<times> real"
  time_split :: bool
  min_time_split_length :: int
  max_time_split_length :: int
  risk_free_rate :: real
  risk_premium :: bool
  done_if_equity_zero :: bool
  loss_cut :: "real option"
  log_reward :: bool
  initial_start_tick :: int
  max_end_tick :: int
  np_rng :: "nat stream"
  start_tick :: int
  end_tick :: int
  truncated :: bool
  current_tick :: int
  simulator :: "'x simulator"
  history :: "info list"
  initial_balance :: real

subsection \<open>Python and numpy helpers\<close>

definition bind_err :: "py_error + 'a \<Rightarrow> ('a \<Rightarrow> py_error + 'b) \<Rightarrow> py_error + 'b" where
  "bind_err r f = (case r of Inl err \<Rightarrow> Inl err | Inr v \<Rightarrow> f v)"

text \<open>\<^verbatim>\<open>xs[i]\<close> for a Python integer \<open>i\<close>: a negative index counts from the end.\<close>

definition py_index :: "'a list \<Rightarrow> int \<Rightarrow> py_error + 'a" where
  "py_index xs i =
     (if 0 \<le> i \<and> i < int (length xs) then Inr (xs ! nat i)
      else if i < 0 \<and> - int (length xs) \<le> i then Inr (xs ! nat (int (length xs) + i))
      else Inl IndexError)"

text \<open>\<^verbatim>\<open>xs[i:j]\<close>: both bounds are wrapped when negative and clamped to the list.\<close>

definition py_slice :: "'a list \<Rightarrow> int \<Rightarrow> int \<Rightarrow> 'a list" where
  "py_slice xs i j =
     (let n = int (length xs);
          a = (if i < 0 then max (i + n) 0 else min i n);
          b = (if j < 0 then max (j + n) 0 else min j n)
      in take (nat (b - a)) (drop (nat a) xs))"

text \<open>Python's \<^verbatim>\<open>round(x)\<close> on a float: to the nearest integer, a tie to the even one.\<close>

definition py_round :: "real \<Rightarrow> int" where
  "py_round x =
     (let f = \<lfloor>x\<rfloor>; d = x - of_int f
      in if d < 1 / 2 then f
         else if 1 / 2 < d then f + 1
         else if even f then f else f + 1)"

definition np_clip :: "real \<Rightarrow> real \<Rightarrow> real \<Rightarrow> real" where
  "np_clip x a_min a_max = min (max x a_min) a_max"

text \<open>\<^verbatim>\<open>scipy.special.expit\<close>\<close>

definition expit :: "real \<Rightarrow> real" where
  "expit x = 1 / (1 + exp (- x))"

text \<open>
  \<^verbatim>\<open>numpy.random.Generator\<close>. A generator is modelled by the stream of raw outputs it
  will deliver; every draw consumes the head. \<^verbatim>\<open>choice([False, True], p=[1 - p, p])\<close>
  draws a uniform variate \<open>u\<close> in \<open>[0, 1)\<close> and answers \<^verbatim>\<open>True\<close> unless \<open>u < 1 - p\<close>;
  \<^verbatim>\<open>integers(low, high)\<close> answers a value of the half-open interval from \<open>low\<close> up to, and
  excluding, \<open>high\<close> (\<^verbatim>\<open>endpoint=False\<close> is the default) and raises when that interval
  is empty.
\<close>

definition uniform :: "nat \<Rightarrow> real" where
  "uniform r = real (r mod 2 ^ 53) / 2 ^ 53"

definition rng_choice :: "nat stream \<Rightarrow> real \<Rightarrow> bool \<times> nat stream" where
  "rng_choice g p = (\<not> uniform (shd g) < 1 - p, stl g)"

definition rng_integers :: "nat stream \<Rightarrow> int \<Rightarrow> int \<Rightarrow> (py_error + int) \<times> nat stream" where
  "rng_integers g low high =
     (if high \<le> low then (Inl (ValueError ''low >= high''), g)
      else (Inr (low + int (shd g) mod (high - low)), stl g))"

text \<open>
  The two operations of numpy whose results are not needed in closed form: seeding
  (\<^verbatim>\<open>default_rng(seed)\<close>) and \<^verbatim>\<open>lognormal(mean, sigma)\<close>.
\<close>

record np_random =
  default_rng :: "int \<Rightarrow> nat stream"
  lognormal :: "nat stream \<Rightarrow> real \<Rightarrow> real \<Rightarrow> real \<times> nat stream"

subsection \<open>Volume adjustment\<close>

text \<open>
  \<^verbatim>\<open>_get_modified_volume\<close>. A symbol without metadata raises \<^verbatim>\<open>KeyError\<close>; a zero
  \<^verbatim>\<open>volume_step\<close> makes the quotient infinite or undefined, which \<^verbatim>\<open>round\<close> refuses.
\<close>

definition get_modified_volume :: "'x mt_env \<Rightarrow> symbol \<Rightarrow> real \<Rightarrow> py_error + real" where
  "get_modified_volume e symbol volume =
     (case symbols_info (simulator e) symbol of
        None \<Rightarrow> Inl KeyError
      | Some si \<Rightarrow>
          let v = \<bar>volume\<bar>;
              v = np_clip v (volume_min si) (volume_max si)
          in if volume_step si = 0
             then (if v = 0 then Inl (ValueError ''cannot convert float NaN to integer'')
                   else Inl OverflowError)
             else Inr (of_int (py_round (v / volume_step si)) * volume_step si))"

subsection \<open>Applying an action\<close>

definition logit_probability :: "real \<Rightarrow> real" where
  "logit_probability x = expit (artanh (np_clip x (- 1 + 1 / 1000) (1 - 1 / 1000)))"

definition resolve_fee :: "fee_spec \<Rightarrow> symbol \<Rightarrow> real" where
  "resolve_fee f symbol = (case f of FixedFee r \<Rightarrow> r | SymbolFee g \<Rightarrow> g symbol)"

text \<open>One \<^verbatim>\<open>choice\<close> per close probability, in order.\<close>

fun sample_closes :: "nat stream \<Rightarrow> real list \<Rightarrow> bool list \<times> nat stream" where
  "sample_closes g [] = ([], g)"
| "sample_closes g (p # ps) =
     (let (c, g1) = rng_choice g p;
          (cs, g2) = sample_closes g1 ps
      in (c # cs, g2))"

definition closed_order_info :: "order \<Rightarrow> real \<Rightarrow> closed_order" where
  "closed_order_info ord p =
     \<lparr>co_order_id = order_id ord, co_symbol = order_symbol ord,
      co_order_type = order_kind ord, co_volume = order_volume ord,
      co_fee = order_fee ord, co_margin = order_margin ord,
      co_profit = order_profit ord, co_close_probability = p\<rparr>"

text \<open>
  The loop over \<^verbatim>\<open>orders_to_close\<close>: each order is closed and then described, with the
  probability that selected it.
\<close>

fun close_orders ::
  "'x mt_simulator \<Rightarrow> 'x simulator \<Rightarrow> (order \<times> real) list \<Rightarrow> 'x simulator \<times> closed_order list"
where
  "close_orders M sim [] = (sim, [])"
| "close_orders M sim ((ord, p) # rest) =
     (let (ord', sim1) = close_order M sim ord;
          (sim2, infos) = close_orders M sim1 rest
      in (sim2, closed_order_info ord' p # infos))"

type_synonym 'x action_state =
  "'x mt_env \<times> (symbol \<rightharpoonup> order_intent) \<times> (symbol \<Rightarrow> closed_order list)"

text \<open>
  Decoding the slice of one symbol (lines 194--203): with \<open>k = symbol_max_orders + 2\<close>
  the slice is \<^verbatim>\<open>action[k * i : k * (i + 1)]\<close>, cut short where the action ends;
  \<^verbatim>\<open>symbol_action[-2]\<close> raises on a slice of fewer than two entries. The result is the
  close probabilities, the hold probability and the volume.
\<close>

definition decode_symbol_action ::
  "nat \<Rightarrow> real list \<Rightarrow> nat \<Rightarrow> py_error + (real list \<times> real \<times> real)"
where
  "decode_symbol_action max_orders action i =
     (let k = max_orders + 2;
          symbol_action = take k (drop (k * i) action);
          close_orders_logit = take (length symbol_action - 2) symbol_action
      in if length symbol_action < 2 then Inl IndexError
         else
           let hold_logit = symbol_action ! (length symbol_action - 2);
               volume = symbol_action ! (length symbol_action - 1) * 100
           in Inr (map logit_probability close_orders_logit,
                   logit_probability hold_logit, volume))"

text \<open>
  Choosing the orders to close (lines 209--217): one draw for each open order that
  has a close probability; the orders drawn \<^verbatim>\<open>True\<close> are kept, each with its
  probability. Without open orders nothing is drawn.
\<close>

definition select_closes ::
  "nat stream \<Rightarrow> order list \<Rightarrow> real list \<Rightarrow> (order \<times> real) list \<times> nat stream"
where
  "select_closes g sym_orders close_orders_probability =
     (if length sym_orders > 0
      then let prob = take (length sym_orders) close_orders_probability;
               (closes, g') = sample_closes g prob
           in (map snd (filter fst (zip closes (zip sym_orders prob))), g')
      else ([], g))"

text \<open>
  The first part of the loop body of \<^verbatim>\<open>_apply_action\<close>, up to the intent record
  (lines 194--234): decode the slice of the action, draw the hold decision, adjust the
  volume, draw the close decisions and close the selected orders. It returns the
  environment, the intent and the descriptions of the orders closed.
\<close>

definition symbol_decision ::
  "'x mt_simulator \<Rightarrow> real list \<Rightarrow> nat \<Rightarrow> symbol \<Rightarrow> 'x mt_env
     \<Rightarrow> py_error + ('x mt_env \<times> order_intent \<times> closed_order list)"
where
  "symbol_decision M action i symbol e =
     bind_err (decode_symbol_action (symbol_max_orders e) action i)
       (\<lambda>(close_orders_probability, hold_probability, volume).
          let (hold, g1) = rng_choice (np_rng e) hold_probability;
              e1 = e\<lparr>np_rng := g1\<rparr>
          in bind_err (get_modified_volume e1 symbol volume) (\<lambda>modified_volume.
               let sym_orders = symbol_orders M (simulator e1) symbol;
                   (orders_to_close, g2) =
                      select_closes (np_rng e1) sym_orders close_orders_probability;
                   (sim1, closed_infos) = close_orders M (simulator e1) orders_to_close;
                   e2 = e1\<lparr>np_rng := g2, simulator := sim1\<rparr>;
                   orders_capacity = int (symbol_max_orders e2)
                                     - (int (length sym_orders) - int (length orders_to_close))
               in Inr (e2,
                       \<lparr>oi_order_id = None, oi_symbol = symbol,
                        oi_hold_probability = hold_probability, oi_hold = hold,
                        oi_volume = volume, oi_capacity = orders_capacity,
                        oi_order_type = None, oi_modified_volume = modified_volume,
                        oi_fee = None, oi_margin = None, oi_error = ''''\<rparr>,
                       closed_infos)))"

text \<open>
  The second part of the loop body (lines 236--253): the capacity check and the
  order request. \<^verbatim>\<open>except ValueError\<close> catches that exception only.
\<close>

definition symbol_open ::
  "'x mt_simulator \<Rightarrow> symbol \<Rightarrow> 'x mt_env \<Rightarrow> order_intent \<Rightarrow> py_error + ('x mt_env \<times> order_intent)"
where
  "symbol_open M symbol e intent =
     (if hedge (simulator e) \<and> oi_capacity intent = 0
      then Inr (e, intent\<lparr>oi_error := ''cannot add more orders''\<rparr>)
      else if \<not> oi_hold intent
      then
        let order_type = (if oi_volume intent > 0 then Buy else Sell);
            fee = resolve_fee (fee e) symbol
        in (case create_order M (simulator e) order_type symbol (oi_modified_volume intent) fee of
              (Inr ord, sim1) \<Rightarrow>
                Inr (e\<lparr>simulator := sim1\<rparr>,
                     intent\<lparr>oi_order_id := Some (order_id ord), oi_order_type := Some order_type,
                            oi_fee := Some fee, oi_margin := Some (order_margin ord)\<rparr>)
            | (Inl exn, sim1) \<Rightarrow>
                (case exn of
                   ValueError msg \<Rightarrow> Inr (e\<lparr>simulator := sim1\<rparr>, intent\<lparr>oi_error := msg\<rparr>)
                 | _ \<Rightarrow> Inl exn))
      else Inr (e, intent))"

definition apply_symbol ::
  "'x mt_simulator \<Rightarrow> real list \<Rightarrow> nat \<Rightarrow> symbol \<Rightarrow> 'x action_state \<Rightarrow> py_error + 'x action_state"
where
  "apply_symbol M action i symbol st =
     (case st of (e, orders_info, closed_orders_info) \<Rightarrow>
        bind_err (symbol_decision M action i symbol e) (\<lambda>(e2, intent, closed_infos).
          bind_err (symbol_open M symbol e2 intent) (\<lambda>(e3, intent').
            Inr (e3, orders_info(symbol \<mapsto> intent'),
                 closed_orders_info(symbol := closed_orders_info symbol @ closed_infos)))))"

fun apply_symbols ::
  "'x mt_simulator \<Rightarrow> real list \<Rightarrow> (nat \<times> symbol) list \<Rightarrow> 'x action_state
     \<Rightarrow> py_error + 'x action_state"
where
  "apply_symbols M action [] st = Inr st"
| "apply_symbols M action ((i, symbol) # rest) st =
     bind_err (apply_symbol M action i symbol st) (apply_symbols M action rest)"

text \<open>
  \<^verbatim>\<open>_apply_action\<close>; the keys of \<^verbatim>\<open>closed_orders_info\<close> are the trading symbols, each
  starting with the empty list.
\<close>

definition apply_action :: "'x mt_simulator \<Rightarrow> 'x mt_env \<Rightarrow> real list \<Rightarrow> py_error + 'x action_state" where
  "apply_action M e action =
     apply_symbols M action (enumerate 0 (trading_symbols e)) (e, Map.empty, \<lambda>symbol. [])"

subsection \<open>Info records and observations\<close>

text \<open>\<^verbatim>\<open>_create_info\<close>, with the keyword arguments it is called with.\<close>

definition create_info ::
  "'x mt_simulator \<Rightarrow> 'x mt_env \<Rightarrow> (symbol \<rightharpoonup> order_intent) option
     \<Rightarrow> (symbol \<Rightarrow> closed_order list) option \<Rightarrow> real option \<Rightarrow> info"
where
  "create_info M e orders_kw closed_orders_kw step_reward =
     \<lparr>info_orders = orders_kw, info_closed_orders = closed_orders_kw,
      info_step_reward = step_reward,
      info_balance = balance (simulator e), info_equity = equity (simulator e),
      info_margin = margin (simulator e),
      info_free_margin = free_margin M (simulator e),
      info_margin_level = margin_level M (simulator e)\<rparr>"

text \<open>
  One row block of the orders tensor: the tensor has \<^verbatim>\<open>symbol_max_orders\<close> rows per
  symbol, so writing the row of a further order raises \<^verbatim>\<open>IndexError\<close>.
\<close>

definition order_rows :: "nat \<Rightarrow> order list \<Rightarrow> py_error + real list list" where
  "order_rows m os =
     (if m < length os then Inl IndexError
      else Inr (map (\<lambda>ord. [order_entry_price ord, order_volume ord, order_profit ord]) os
                @ replicate (m - length os) [0, 0, 0]))"

fun orders_tensor ::
  "'x mt_simulator \<Rightarrow> 'x mt_env \<Rightarrow> symbol list \<Rightarrow> py_error + real list list list"
where
  "orders_tensor M e [] = Inr []"
| "orders_tensor M e (symbol # rest) =
     bind_err (order_rows (symbol_max_orders e) (symbol_orders M (simulator e) symbol))
       (\<lambda>rows. bind_err (orders_tensor M e rest) (\<lambda>blocks. Inr (rows # blocks)))"

definition map_observation :: "(real \<Rightarrow> real) \<Rightarrow> observation \<Rightarrow> observation" where
  "map_observation f ob =
     \<lparr>obs_balance = map f (obs_balance ob), obs_equity = map f (obs_equity ob),
      obs_margin = map f (obs_margin ob), obs_features = map (map f) (obs_features ob),
      obs_orders = map (map (map f)) (obs_orders ob)\<rparr>"

text \<open>\<^verbatim>\<open>_get_observation\<close>\<close>

definition get_observation :: "'x mt_simulator \<Rightarrow> 'x mt_env \<Rightarrow> py_error + observation" where
  "get_observation M e =
     (let features = py_slice (signal_features e)
                       (current_tick e - window_size e + 1) (current_tick e + 1)
      in bind_err (orders_tensor M e (trading_symbols e)) (\<lambda>orders_block.
           let ob = \<lparr>obs_balance = [balance (simulator e)],
                     obs_equity = [equity (simulator e)],
                     obs_margin = [margin (simulator e)],
                     obs_features = features, obs_orders = orders_block\<rparr>
           in Inr (case preprocess e of None \<Rightarrow> ob | Some f \<Rightarrow> map_observation f ob)))"

subsection \<open>Rewards\<close>

text \<open>
  \<^verbatim>\<open>_calculate_reward\<close>: \<^verbatim>\<open>self.history[-1]\<close> raises on an empty list, and the
  division raises when the initial balance is zero.
\<close>

definition calculate_reward :: "'x mt_env \<Rightarrow> py_error + real" where
  "calculate_reward e =
     (if history e = [] then Inl IndexError
      else let prev_equity = info_equity (last (history e));
               current_equity = equity (simulator e);
               step_reward = current_equity - prev_equity
           in if initial_balance e = 0 then Inl ZeroDivisionError
              else Inr ((step_reward / initial_balance e) * 100))"

text \<open>\<^verbatim>\<open>_calculate_log_reward\<close>\<close>

definition calculate_log_reward :: "'x mt_env \<Rightarrow> py_error + real" where
  "calculate_log_reward e =
     (if history e = [] then Inl IndexError
      else let prev_equity = info_equity (last (history e));
               current_equity = equity (simulator e)
           in Inr (if prev_equity > 0 \<and> current_equity > 0
                   then ln (current_equity / prev_equity)
                   else - 10))"

subsection \<open>Episodes\<close>

text \<open>
  The two draws of \<^verbatim>\<open>reset\<close> under \<^verbatim>\<open>time_split\<close> (lines 139--146).
\<close>

definition sample_time_window :: "'x mt_env \<Rightarrow> py_error + 'x mt_env" where
  "sample_time_window e =
     (case rng_integers (np_rng e) (initial_start_tick e)
             (max_end_tick e - min_time_split_length e) of
        (Inl err, g1) \<Rightarrow> Inl err
      | (Inr st, g1) \<Rightarrow>
          let e1 = e\<lparr>np_rng := g1, start_tick := st\<rparr>;
              high = min (max_end_tick e1) (start_tick e1 + max_time_split_length e1)
          in (case rng_integers (np_rng e1) (start_tick e1 + min_time_split_length e1) high of
                (Inl err, g2) \<Rightarrow> Inl err
              | (Inr en, g2) \<Rightarrow>
                  Inr (e1\<lparr>np_rng := g2, end_tick := en, current_tick := start_tick e1\<rparr>)))"

text \<open>
  \<^verbatim>\<open>reset\<close>, in the order of the source: the generator, the copy of the simulator and
  the initial balance (lines 127--138); the time window (lines 139--146); the clock of
  the simulator, the history and the results (lines 148--153). The deep copies are the
  values themselves. (The seeding of gymnasium's own generator by \<^verbatim>\<open>super().reset\<close> is
  left out: the environment never draws from it.)
\<close>

definition reset_begin :: "np_random \<Rightarrow> 'x mt_env \<Rightarrow> int option \<Rightarrow> 'x mt_env" where
  "reset_begin N e seed =
     (let e0 = (case seed of None \<Rightarrow> e | Some s \<Rightarrow> e\<lparr>np_rng := default_rng N s\<rparr>);
          e1 = e0\<lparr>truncated := False, current_tick := start_tick e0,
                  simulator := original_simulator e0\<rparr>;
          e2 = e1\<lparr>initial_balance := balance (simulator e1)\<rparr>
      in if randomize_initial_balance e2
         then let (x, g) = lognormal N (np_rng e2) (fst (initial_balance_kwargs e2))
                             (snd (initial_balance_kwargs e2))
              in e2\<lparr>np_rng := g, simulator := (simulator e2)\<lparr>equity := x, balance := x\<rparr>,
                    initial_balance := x\<rparr>
         else e2)"

definition reset_finish ::
  "'x mt_simulator \<Rightarrow> 'x mt_env \<Rightarrow> py_error + ((observation \<times> info) \<times> 'x mt_env)"
where
  "reset_finish M e4 =
     bind_err (py_index (time_points e4) (current_tick e4)) (\<lambda>t.
       let e5 = e4\<lparr>simulator := (simulator e4)\<lparr>current_time := t\<rparr>\<rparr>;
           e6 = e5\<lparr>history := [create_info M e5 None None None]\<rparr>
       in bind_err (get_observation M e6) (\<lambda>ob.
            Inr ((ob, create_info M e6 None None None), e6)))"

definition reset ::
  "np_random \<Rightarrow> 'x mt_simulator \<Rightarrow> 'x mt_env \<Rightarrow> int option
     \<Rightarrow> py_error + ((observation \<times> info) \<times> 'x mt_env)"
where
  "reset N M e seed =
     (let e3 = reset_begin N e seed
      in bind_err (if time_split e3 then sample_time_window e3 else Inr e3) (reset_finish M))"

text \<open>The termination flag of \<^verbatim>\<open>step\<close> (lines 168--174).\<close>

definition step_terminal :: "'x mt_env \<Rightarrow> py_error + bool" where
  "step_terminal e =
     (let terminal = (if done_if_equity_zero e then equity (simulator e) = 0 else False)
      in case loss_cut e of
           None \<Rightarrow> Inr terminal
         | Some lc \<Rightarrow>
             if initial_balance e = 0 then Inl ZeroDivisionError
             else Inr (equity (simulator e) / initial_balance e < lc))"

type_synonym step_result = "observation \<times> real \<times> bool \<times> bool \<times> info"

text \<open>
  \<^verbatim>\<open>step\<close>, in the order of the source: the action is applied (line 156), the clock
  advances (lines 158--160), and the simulator is ticked and the results are computed
  (lines 162--185).
\<close>

definition advance_tick :: "'x mt_env \<Rightarrow> 'x mt_env" where
  "advance_tick e1 =
     (let e2 = e1\<lparr>current_tick := current_tick e1 + 1\<rparr>
      in if current_tick e2 = end_tick e2 then e2\<lparr>truncated := True\<rparr> else e2)"

definition step_results ::
  "'x mt_simulator \<Rightarrow> 'x mt_env \<Rightarrow> (symbol \<rightharpoonup> order_intent) \<Rightarrow> (symbol \<Rightarrow> closed_order list)
     \<Rightarrow> py_error + (step_result \<times> 'x mt_env)"
where
  "step_results M e3 orders_info closed_orders_info =
     bind_err (py_index (time_points e3) (current_tick e3)) (\<lambda>t1.
     bind_err (py_index (time_points e3) (current_tick e3 - 1)) (\<lambda>t0.
       let dt = t1 - t0;
           e4 = e3\<lparr>simulator := tick M (simulator e3) dt\<rparr>
       in bind_err (if log_reward e4 then calculate_log_reward e4
                    else calculate_reward e4) (\<lambda>step_reward.
          bind_err (step_terminal e4) (\<lambda>terminal.
            let step_info = create_info M e4 (Some orders_info) (Some closed_orders_info)
                              (Some step_reward)
            in bind_err (get_observation M e4) (\<lambda>ob.
                 let e5 = e4\<lparr>history := history e4 @ [step_info]\<rparr>;
                     reward = (if risk_premium e5
                               then step_reward
                                    - balance (simulator e5) * risk_free_rate e5 / (1461 / 4)
                               else step_reward)
                 in Inr ((ob, reward, terminal, truncated e5, step_info), e5))))))"

definition step ::
  "'x mt_simulator \<Rightarrow> 'x mt_env \<Rightarrow> real list \<Rightarrow> py_error + (step_result \<times> 'x mt_env)"
where
  "step M e action =
     bind_err (apply_action M e action) (\<lambda>(e1, orders_info, closed_orders_info).
       step_results M (advance_tick e1) orders_info closed_orders_info)"

text \<open>A caller's loop: the actions of a list are applied one after the other.\<close>

fun run_steps ::
  "'x mt_simulator \<Rightarrow> 'x mt_env \<Rightarrow> real list list \<Rightarrow> py_error + (step_result list \<times> 'x mt_env)"
where
  "run_steps M e [] = Inr ([], e)"
| "run_steps M e (action # rest) =
     bind_err (step M e action) (\<lambda>(r, e1).
       bind_err (run_steps M e1 rest) (\<lambda>(rs, e2). Inr (r # rs, e2)))"

text \<open>An episode: \<^verbatim>\<open>reset\<close>, then the actions.\<close>

definition run_episode ::
  "np_random \<Rightarrow> 'x mt_simulator \<Rightarrow> 'x mt_env \<Rightarrow> int option \<Rightarrow> real list list
     \<Rightarrow> py_error + ((observation \<times> info) \<times> step_result list \<times> 'x mt_env)"
where
  "run_episode N M e seed actions =
     bind_err (reset N M e seed) (\<lambda>(first, e0).
       bind_err (run_steps M e0 actions) (\<lambda>(rs, e1). Inr (first, rs, e1)))"

subsection \<open>A small instance\<close>

text \<open>
  Modelled from the spec: a simulator with the interface of section 6, small enough to
  run by hand. It keeps its open orders in \<open>internal\<close>; \<open>symbol_orders\<close> lists those of
  one instrument in order; \<open>create_order\<close> rejects a volume above 50 with a
  \<^verbatim>\<open>ValueError\<close> and otherwise appends the new order (replacing the instrument's order when
  hedging is off); \<open>close_order\<close> removes the order; \<open>tick\<close> moves the clock; free margin is
  equity minus margin and the margin level the ratio of equity to margin.
\<close>

definition demo_symbol_orders :: "order list simulator \<Rightarrow> symbol \<Rightarrow> order list" where
  "demo_symbol_orders sim symbol = filter (\<lambda>ord. order_symbol ord = symbol) (internal sim)"

definition demo_create_order ::
  "order list simulator \<Rightarrow> order_type \<Rightarrow> symbol \<Rightarrow> real \<Rightarrow> real
     \<Rightarrow> (py_error + order) \<times> order list simulator"
where
  "demo_create_order sim ot symbol vol f =
     (if 50 < vol then (Inl (ValueError ''low free margin''), sim)
      else
        let ord = \<lparr>order_id = Suc (length (internal sim)), order_symbol = symbol,
                   order_kind = ot, order_volume = vol, order_fee = f,
                   order_margin = vol, order_profit = 0, order_entry_price = 1\<rparr>;
            kept = (if hedge sim then internal sim
                    else filter (\<lambda>x. order_symbol x \<noteq> symbol) (internal sim))
        in (Inr ord, sim\<lparr>margin := margin sim + vol, internal := kept @ [ord]\<rparr>))"

definition demo_close_order :: "order list simulator \<Rightarrow> order \<Rightarrow> order \<times> order list simulator" where
  "demo_close_order sim ord = (ord, sim\<lparr>internal := remove1 ord (internal sim)\<rparr>)"

definition demo_tick :: "order list simulator \<Rightarrow> int \<Rightarrow> order list simulator" where
  "demo_tick sim dt = sim\<lparr>current_time := current_time sim + dt\<rparr>"

definition demo_simulator :: "order list mt_simulator" where
  "demo_simulator =
     \<lparr>symbol_orders = demo_symbol_orders, create_order = demo_create_order,
      close_order = demo_close_order, tick = demo_tick,
      free_margin = (\<lambda>sim. equity sim - margin sim),
      margin_level = (\<lambda>sim. if margin sim = 0 then 0 else equity sim / margin sim)\<rparr>"

text \<open>A generator for the instance: seed \<open>s\<close> delivers \<open>s, s + 1, \<dots>\<close>.\<close>

definition demo_random :: np_random where
  "demo_random =
     \<lparr>default_rng = (\<lambda>s. siterate Suc (nat s)),
      lognormal = (\<lambda>g mu sigma. (exp (mu + sigma * uniform (shd g)), stl g))\<rparr>"

definition demo_state :: "order list simulator" where
  "demo_state =
     \<lparr>hedge = True, balance = 10000, equity = 10000, margin = 0, current_time = 0,
      symbols_info = [''EURUSD'' \<mapsto> \<lparr>volume_min = 1 / 100, volume_max = 100,
                                      volume_step = 1 / 100\<rparr>],
      internal = []\<rparr>"

text \<open>
  One instrument, one order slot, thirty time points a minute apart, and the
  defaults of \<^verbatim>\<open>__init__\<close> for the rest (no preprocessing, to keep the numbers plain).
\<close>

definition demo_env :: "order list mt_env" where
  "demo_env =
     \<lparr>original_simulator = demo_state, trading_symbols = [''EURUSD''], window_size = 1,
      time_points = map (\<lambda>n. 60 * int n) [0..<30], fee = FixedFee (1 / 2000),
      symbol_max_orders = 1,
      signal_features = map (\<lambda>n. [real n, real n]) [0..<30],
      preprocess = None, randomize_initial_balance = False,
      initial_balance_kwargs = (9, 1 / 10), time_split = False,
      min_time_split_length = 10, max_time_split_length = 200,
      risk_free_rate = 1 / 50, risk_premium = False, done_if_equity_zero = False,
      loss_cut = None, log_reward = False, initial_start_tick = 0, max_end_tick = 29,
      np_rng = siterate Suc 42, start_tick = 0, end_tick = 29, truncated = False,
      current_tick = 0, simulator = demo_state, history = [], initial_balance = 10000\<rparr>"

definition demo_info :: "real \<Rightarrow> info" where
  "demo_info x =
     \<lparr>info_orders = None, info_closed_orders = None, info_step_reward = None,
      info_balance = x, info_equity = x, info_margin = 0, info_free_margin = x,
      info_margin_level = 0\<rparr>"

text \<open>The same simulator with a lot size of one and a minimum volume of a quarter.\<close>

definition coarse_state :: "order list simulator" where
  "coarse_state = demo_state\<lparr>symbols_info :=
      [''EURUSD'' \<mapsto> \<lparr>volume_min = 1 / 4, volume_max = 100, volume_step = 1\<rparr>]\<rparr>"

subsection \<open>What applying an action may change\<close>

text \<open>
  Two environments are in the same frame when they differ at most in the generator and
  in the simulator, the two attributes that \<^verbatim>\<open>_apply_action\<close> touches.
\<close>

definition frame :: "'x mt_env \<Rightarrow> 'x mt_env \<Rightarrow> bool" where
  "frame e e' \<longleftrightarrow> (\<exists>g s. e' = e\<lparr>np_rng := g, simulator := s\<rparr>)"

text \<open>
  The same simulator, except that the tick wipes the equity out; and the instance with
  termination on zero equity switched on together with a loss-cut ratio of zero.
\<close>

definition crash_simulator :: "order list mt_simulator" where
  "crash_simulator = demo_simulator\<lparr>tick := (\<lambda>sim dt. (demo_tick sim dt)\<lparr>equity := 0\<rparr>)\<rparr>"

definition bankrupt_env :: "order list mt_env" where
  "bankrupt_env = demo_env\<lparr>done_if_equity_zero := True, loss_cut := Some 0\<rparr>"



subsection \<open>The order book of the simulator\<close>

text \<open>
  Modelled from the spec: what the environment relies on in the simulator's
  bookkeeping of open orders (\<open>symbolOrders\<close> lists the open orders of an instrument;
  hedge mode is ``whether more than one concurrent order per instrument is permitted'').
  No method changes the hedge mode. Closing an open order takes it off the list of its
  instrument and adds no order to any list. A request to create an order adds nothing
  to the lists of the other instruments, adds at most one order to the list of its own
  instrument in hedge mode, and otherwise leaves at most one order there (or no more than
  there were). A tick adds no order.
\<close>

definition keeps_books :: "'x mt_simulator \<Rightarrow> bool" where
  "keeps_books M \<longleftrightarrow>
     (\<forall>sim ord s.
         hedge (snd (close_order M sim ord)) = hedge sim
       \<and> length (symbol_orders M (snd (close_order M sim ord)) s)
           \<le> length (symbol_orders M sim s)
       \<and> (ord \<in> set (symbol_orders M sim s) \<longrightarrow>
            symbol_orders M (snd (close_order M sim ord)) s
              = remove1 ord (symbol_orders M sim s)))
   \<and> (\<forall>sim ot symbol v f s.
         hedge (snd (create_order M sim ot symbol v f)) = hedge sim
       \<and> (s \<noteq> symbol \<longrightarrow>
            length (symbol_orders M (snd (create_order M sim ot symbol v f)) s)
              \<le> length (symbol_orders M sim s))
       \<and> (hedge sim \<longrightarrow>
            length (symbol_orders M (snd (create_order M sim ot symbol v f)) symbol)
              \<le> length (symbol_orders M sim symbol) + 1)
       \<and> (\<not> hedge sim \<longrightarrow>
            length (symbol_orders M (snd (create_order M sim ot symbol v f)) symbol)
              \<le> max 1 (length (symbol_orders M sim symbol))))
   \<and> (\<forall>sim dt s.
         hedge (tick M sim dt) = hedge sim
       \<and> length (symbol_orders M (tick M sim dt) s) \<le> length (symbol_orders M sim s))"

text \<open>
  The bound on the open orders: for every trading symbol at most
  \<^verbatim>\<open>symbol_max_orders\<close> in hedge mode, at most one otherwise.
\<close>

definition within_capacity :: "'x mt_simulator \<Rightarrow> 'x mt_env \<Rightarrow> bool" where
  "within_capacity M e \<longleftrightarrow>
     (\<forall>s \<in> set (trading_symbols e).
         length (symbol_orders M (simulator e) s)
           \<le> (if hedge (simulator e) then symbol_max_orders e else 1))"

section \<open>Properties\<close>

subsection \<open>Rewards\<close>





subsection \<open>Volume adjustment\<close>








subsection \<open>Results of the helpers\<close>

lemma bind_err_Inr: "bind_err r f = Inr y \<longleftrightarrow> (\<exists>v. r = Inr v \<and> f v = Inr y)"
  by (cases r) (simp_all add: bind_err_def)

lemma bind_err_simps [simp]:
  "bind_err (Inl err) f = Inl err" "bind_err (Inr v) f = f v"
  by (simp_all add: bind_err_def)

lemma rng_integers_Inr:
  assumes "rng_integers g low high = (Inr v, g')"
  shows "low \<le> v \<and> v < high \<and> g' = stl g"
proof -
  from assms have lt: "low < high"
    by (auto simp: rng_integers_def split: if_splits)
  with assms have v: "v = low + int (shd g) mod (high - low)" and "g' = stl g"
    by (auto simp: rng_integers_def)
  moreover have "0 \<le> int (shd g) mod (high - low)" "int (shd g) mod (high - low) < high - low"
    using lt by simp_all
  ultimately show ?thesis by linarith
qed

lemma rng_integers_hit:
  assumes "low \<le> v" and "v < high"
  shows "rng_integers (nat (v - low) ## g) low high = (Inr v, g)"
  using assms by (simp add: rng_integers_def)

lemma sample_time_window_Inr:
  fixes e :: "'x mt_env"
  assumes "sample_time_window e = Inr e'"
  shows "initial_start_tick e \<le> start_tick e'
       \<and> start_tick e' < max_end_tick e - min_time_split_length e
       \<and> start_tick e' + min_time_split_length e \<le> end_tick e'
       \<and> end_tick e' < min (max_end_tick e) (start_tick e' + max_time_split_length e)
       \<and> current_tick e' = start_tick e'
       \<and> np_rng e' = stl (stl (np_rng e))
       \<and> e' = e\<lparr>np_rng := np_rng e', start_tick := start_tick e', end_tick := end_tick e',
                  current_tick := current_tick e'\<rparr>"
proof -
  obtain r1 g1 where d1: "rng_integers (np_rng e) (initial_start_tick e)
                            (max_end_tick e - min_time_split_length e) = (r1, g1)"
    by (cases "rng_integers (np_rng e) (initial_start_tick e)
                 (max_end_tick e - min_time_split_length e)")
  with assms obtain st where r1: "r1 = Inr st"
    by (cases r1) (simp_all add: sample_time_window_def)
  obtain r2 g2 where d2: "rng_integers g1 (st + min_time_split_length e)
                            (min (max_end_tick e) (st + max_time_split_length e)) = (r2, g2)"
    by (cases "rng_integers g1 (st + min_time_split_length e)
                 (min (max_end_tick e) (st + max_time_split_length e))")
  with assms d1 r1 obtain en where r2: "r2 = Inr en"
    by (cases r2) (simp_all add: sample_time_window_def Let_def)
  from assms d1 r1 d2 r2
  have e': "e' = e\<lparr>np_rng := g2, start_tick := st, end_tick := en, current_tick := st\<rparr>"
    by (auto simp: sample_time_window_def Let_def)
  from rng_integers_Inr [OF d1 [unfolded r1]] rng_integers_Inr [OF d2 [unfolded r2]] e'
  show ?thesis by simp
qed

lemma sample_time_window_hit:
  fixes e :: "'x mt_env"
  assumes "initial_start_tick e \<le> s" and "s < max_end_tick e - min_time_split_length e"
    and "s + min_time_split_length e \<le> t"
    and "t < min (max_end_tick e) (s + max_time_split_length e)"
  shows "sample_time_window
           (e\<lparr>np_rng := nat (s - initial_start_tick e)
                          ## nat (t - (s + min_time_split_length e)) ## g\<rparr>)
         = Inr (e\<lparr>np_rng := g, start_tick := s, end_tick := t, current_tick := s\<rparr>)"
  using assms
  by (simp add: sample_time_window_def Let_def rng_integers_hit)

lemma reset_begin_config:
  "initial_start_tick (reset_begin N e seed) = initial_start_tick e"
  "max_end_tick (reset_begin N e seed) = max_end_tick e"
  "min_time_split_length (reset_begin N e seed) = min_time_split_length e"
  "max_time_split_length (reset_begin N e seed) = max_time_split_length e"
  "time_split (reset_begin N e seed) = time_split e"
  "start_tick (reset_begin N e seed) = start_tick e"
  "end_tick (reset_begin N e seed) = end_tick e"
  "current_tick (reset_begin N e seed) = start_tick e"
  "time_points (reset_begin N e seed) = time_points e"
  by (simp_all add: reset_begin_def Let_def split_beta split: option.splits)

lemma reset_finish_Inr:
  assumes "reset_finish M e4 = Inr (r, e')"
  shows "start_tick e' = start_tick e4 \<and> end_tick e' = end_tick e4
       \<and> current_tick e' = current_tick e4 \<and> length (history e') = 1
       \<and> np_rng e' = np_rng e4"
  using assms by (auto simp: reset_finish_def Let_def bind_err_Inr)

lemma reset_time_window:
  fixes e :: "'x mt_env"
  assumes "time_split e" and "reset N M e seed = Inr (r, e')"
  shows "initial_start_tick e \<le> start_tick e'
       \<and> start_tick e' < max_end_tick e - min_time_split_length e
       \<and> start_tick e' + min_time_split_length e \<le> end_tick e'
       \<and> end_tick e' < min (max_end_tick e) (start_tick e' + max_time_split_length e)
       \<and> current_tick e' = start_tick e'"
proof -
  from assms obtain e4 where w: "sample_time_window (reset_begin N e seed) = Inr e4"
    and f: "reset_finish M e4 = Inr (r, e')"
    by (auto simp: reset_def Let_def reset_begin_config bind_err_Inr)
  from sample_time_window_Inr [OF w] reset_finish_Inr [OF f] show ?thesis
    by (simp add: reset_begin_config)
qed

text \<open>
  Claim C3, amended. The upper bounds of both draws are exclusive. After a \<^verbatim>\<open>reset\<close>
  with time-windowing enabled, \<open>start_tick\<close> lies in the half-open interval from
  \<open>initial_start_tick\<close> up to, and excluding, \<open>max_end_tick - min_time_split_length\<close>, and
  \<open>end_tick\<close> in the half-open interval from \<open>start_tick + min_time_split_length\<close> up to,
  and excluding, \<open>min max_end_tick (start_tick + max_time_split_length)\<close>; hence
  \<open>end_tick - start_tick \<ge> min_time_split_length\<close> and \<open>end_tick \<le> max_end_tick\<close>. Every
  pair of values of these half-open intervals is drawn by some generator state.
\<close>

theorem time_window_half_open:
  fixes e :: "'x mt_env"
  shows "(time_split e \<and> reset N M e seed = Inr (r, e') \<longrightarrow>
            initial_start_tick e \<le> start_tick e'
          \<and> start_tick e' < max_end_tick e - min_time_split_length e
          \<and> start_tick e' + min_time_split_length e \<le> end_tick e'
          \<and> end_tick e' < min (max_end_tick e) (start_tick e' + max_time_split_length e)
          \<and> min_time_split_length e \<le> end_tick e' - start_tick e'
          \<and> end_tick e' \<le> max_end_tick e)
       \<and> (initial_start_tick e \<le> s \<and> s < max_end_tick e - min_time_split_length e
          \<and> s + min_time_split_length e \<le> t
          \<and> t < min (max_end_tick e) (s + max_time_split_length e) \<longrightarrow>
            (\<exists>g e1. sample_time_window (e\<lparr>np_rng := g\<rparr>) = Inr e1
                  \<and> start_tick e1 = s \<and> end_tick e1 = t))"
proof (rule conjI; rule impI)
  assume "time_split e \<and> reset N M e seed = Inr (r, e')"
  then have "initial_start_tick e \<le> start_tick e'
       \<and> start_tick e' < max_end_tick e - min_time_split_length e
       \<and> start_tick e' + min_time_split_length e \<le> end_tick e'
       \<and> end_tick e' < min (max_end_tick e) (start_tick e' + max_time_split_length e)
       \<and> current_tick e' = start_tick e'"
    using reset_time_window [of e N M seed r e'] by blast
  then show "initial_start_tick e \<le> start_tick e'
          \<and> start_tick e' < max_end_tick e - min_time_split_length e
          \<and> start_tick e' + min_time_split_length e \<le> end_tick e'
          \<and> end_tick e' < min (max_end_tick e) (start_tick e' + max_time_split_length e)
          \<and> min_time_split_length e \<le> end_tick e' - start_tick e'
          \<and> end_tick e' \<le> max_end_tick e"
    by linarith
next
  assume A: "initial_start_tick e \<le> s \<and> s < max_end_tick e - min_time_split_length e
          \<and> s + min_time_split_length e \<le> t
          \<and> t < min (max_end_tick e) (s + max_time_split_length e)"
  let ?g = "nat (s - initial_start_tick e) ## nat (t - (s + min_time_split_length e)) ## sconst 0"
  have "sample_time_window (e\<lparr>np_rng := ?g\<rparr>)
        = Inr (e\<lparr>np_rng := sconst 0, start_tick := s, end_tick := t, current_tick := s\<rparr>)"
    using A by (intro sample_time_window_hit) simp_all
  then show "\<exists>g e1. sample_time_window (e\<lparr>np_rng := g\<rparr>) = Inr e1
                  \<and> start_tick e1 = s \<and> end_tick e1 = t"
    by (intro exI [of _ ?g] exI [of _ "e\<lparr>np_rng := sconst 0, start_tick := s, end_tick := t,
                                            current_tick := s\<rparr>"]) simp
qed



text \<open>
  Claim C3, as stated, fails: the inclusive upper end
  \<open>max_end_tick - min_time_split_length\<close> is not attainable for \<open>start_tick\<close>, whatever the
  generator and the seed.
\<close>

theorem time_window_endpoint_not_drawn:
  "\<not> (\<exists>g seed r e'.
        reset demo_random demo_simulator (demo_env\<lparr>time_split := True, np_rng := g\<rparr>) seed
          = Inr (r, e')
        \<and> start_tick e' = max_end_tick demo_env - min_time_split_length demo_env)"
proof
  assume "\<exists>g seed r e'.
        reset demo_random demo_simulator (demo_env\<lparr>time_split := True, np_rng := g\<rparr>) seed
          = Inr (r, e')
        \<and> start_tick e' = max_end_tick demo_env - min_time_split_length demo_env"
  then obtain g seed r e' where
    r: "reset demo_random demo_simulator (demo_env\<lparr>time_split := True, np_rng := g\<rparr>) seed
          = Inr (r, e')"
    and s: "start_tick e' = max_end_tick demo_env - min_time_split_length demo_env"
    by blast
  have "time_split (demo_env\<lparr>time_split := True, np_rng := g\<rparr>)"
    by simp
  from reset_time_window [OF this r] s show False
    by simp
qed

lemmas demo_defs = demo_env_def demo_state_def demo_simulator_def demo_random_def
  demo_symbol_orders_def demo_create_order_def demo_close_order_def demo_tick_def

lemma demo_reset_window:
  "\<exists>r e'. reset demo_random demo_simulator (demo_env\<lparr>time_split := True\<rparr>) (Some 3) = Inr (r, e')
      \<and> start_tick e' = 3 \<and> end_tick e' = 17"
  by (simp add: reset_def reset_begin_def reset_finish_def sample_time_window_def
      rng_integers_def get_observation_def create_info_def order_rows_def py_index_def
      demo_defs Let_def)

theorem time_window_half_open_witness:
  "time_split (demo_env\<lparr>time_split := True\<rparr>)
   \<and> (\<exists>r e'. reset demo_random demo_simulator (demo_env\<lparr>time_split := True\<rparr>) (Some 3) = Inr (r, e')
         \<and> start_tick e' = 3 \<and> end_tick e' = 17
         \<and> min_time_split_length (demo_env\<lparr>time_split := True\<rparr>) \<le> end_tick e' - start_tick e'
         \<and> end_tick e' \<le> max_end_tick (demo_env\<lparr>time_split := True\<rparr>))
   \<and> (\<exists>g e1. sample_time_window (demo_env\<lparr>time_split := True, np_rng := g\<rparr>) = Inr e1
         \<and> start_tick e1 = 18 \<and> end_tick e1 = 28)"
proof -
  let ?e = "demo_env\<lparr>time_split := True\<rparr>"
  have ts: "time_split ?e"
    by simp
  from demo_reset_window obtain r e'
    where run: "reset demo_random demo_simulator ?e (Some 3) = Inr (r, e')"
      and se: "start_tick e' = 3" "end_tick e' = 17"
    by blast
  have range: "initial_start_tick ?e \<le> 18 \<and> 18 < max_end_tick ?e - min_time_split_length ?e
             \<and> 18 + min_time_split_length ?e \<le> 28
             \<and> 28 < min (max_end_tick ?e) (18 + max_time_split_length ?e)"
    by (simp add: demo_env_def)
  note inst = time_window_half_open [of ?e demo_random demo_simulator "Some 3" r e' 18 28]
  from inst ts run
  have "min_time_split_length ?e \<le> end_tick e' - start_tick e' \<and> end_tick e' \<le> max_end_tick ?e"
    by blast
  moreover from inst range
  have "\<exists>g e1. sample_time_window (?e\<lparr>np_rng := g\<rparr>) = Inr e1
              \<and> start_tick e1 = 18 \<and> end_tick e1 = 28"
    by blast
  ultimately show ?thesis
    using ts run se by auto
qed

subsection \<open>The frame of an action and the clock\<close>

lemma frame_refl: "frame e e"
  unfolding frame_def by (rule exI [of _ "np_rng e"], rule exI [of _ "simulator e"]) simp

lemma frame_trans:
  assumes "frame e e1" and "frame e1 e2"
  shows "frame e e2"
proof -
  from assms(1) obtain g s where e1: "e1 = e\<lparr>np_rng := g, simulator := s\<rparr>"
    unfolding frame_def by blast
  from assms(2) obtain g' s' where e2: "e2 = e1\<lparr>np_rng := g', simulator := s'\<rparr>"
    unfolding frame_def by blast
  have "e2 = e\<lparr>np_rng := g', simulator := s'\<rparr>"
    unfolding e2 e1 by simp
  then show ?thesis
    unfolding frame_def by blast
qed

lemma frame_rng: "frame e (e\<lparr>np_rng := g\<rparr>)"
  unfolding frame_def by (rule exI [of _ g], rule exI [of _ "simulator e"]) simp

lemma frame_sim: "frame e (e\<lparr>simulator := s\<rparr>)"
  unfolding frame_def by (rule exI [of _ "np_rng e"], rule exI [of _ s]) simp

lemma frame_both: "frame e (e\<lparr>np_rng := g, simulator := s\<rparr>)"
  unfolding frame_def by blast

lemma frame_fields:
  assumes "frame e e'"
  shows "history e' = history e" "current_tick e' = current_tick e"
    "start_tick e' = start_tick e" "end_tick e' = end_tick e"
    "truncated e' = truncated e" "initial_balance e' = initial_balance e"
    "symbol_max_orders e' = symbol_max_orders e" "trading_symbols e' = trading_symbols e"
    "loss_cut e' = loss_cut e" "done_if_equity_zero e' = done_if_equity_zero e"
    "time_points e' = time_points e" "fee e' = fee e"
  using assms unfolding frame_def by auto

text \<open>The result of the decision phase, spelled out.\<close>

lemma symbol_decision_Inr:
  assumes "symbol_decision M action i symbol e = Inr (e2, intent, cl)"
  shows "\<exists>cp hp vol mv otc g2.
           decode_symbol_action (symbol_max_orders e) action i = Inr (cp, hp, vol)
         \<and> get_modified_volume (e\<lparr>np_rng := snd (rng_choice (np_rng e) hp)\<rparr>) symbol vol = Inr mv
         \<and> select_closes (snd (rng_choice (np_rng e) hp))
              (symbol_orders M (simulator e) symbol) cp = (otc, g2)
         \<and> e2 = e\<lparr>np_rng := g2, simulator := fst (close_orders M (simulator e) otc)\<rparr>
         \<and> cl = snd (close_orders M (simulator e) otc)
         \<and> intent = \<lparr>oi_order_id = None, oi_symbol = symbol,
                      oi_hold_probability = hp, oi_hold = fst (rng_choice (np_rng e) hp),
                      oi_volume = vol,
                      oi_capacity = int (symbol_max_orders e)
                         - (int (length (symbol_orders M (simulator e) symbol))
                            - int (length otc)),
                      oi_order_type = None, oi_modified_volume = mv,
                      oi_fee = None, oi_margin = None, oi_error = ''''\<rparr>"
proof -
  from assms obtain cp hp vol
    where d: "decode_symbol_action (symbol_max_orders e) action i = Inr (cp, hp, vol)"
    unfolding symbol_decision_def bind_err_def
    by (cases "decode_symbol_action (symbol_max_orders e) action i") auto
  obtain hold g1 where h: "rng_choice (np_rng e) hp = (hold, g1)"
    by (cases "rng_choice (np_rng e) hp")
  from assms d h obtain mv
    where m: "get_modified_volume (e\<lparr>np_rng := g1\<rparr>) symbol vol = Inr mv"
    unfolding symbol_decision_def bind_err_def
    by (cases "get_modified_volume (e\<lparr>np_rng := g1\<rparr>) symbol vol") auto
  obtain otc g2
    where s: "select_closes g1 (symbol_orders M (simulator e) symbol) cp = (otc, g2)"
    by (cases "select_closes g1 (symbol_orders M (simulator e) symbol) cp")
  obtain sim1 infos where c: "close_orders M (simulator e) otc = (sim1, infos)"
    by (cases "close_orders M (simulator e) otc")
  from assms d h m s c show ?thesis
    unfolding symbol_decision_def bind_err_def by (simp add: Let_def)
qed

lemma symbol_decision_frame:
  assumes "symbol_decision M action i symbol e = Inr (e2, intent, cl)"
  shows "frame e e2"
  using symbol_decision_Inr [OF assms] by (auto simp: frame_both)

lemma symbol_open_frame:
  assumes "symbol_open M symbol e intent = Inr (e3, intent')"
  shows "frame e e3"
proof (cases "hedge (simulator e) \<and> oi_capacity intent = 0")
  case True
  with assms show ?thesis by (simp add: symbol_open_def frame_refl)
next
  case nocap: False
  show ?thesis
  proof (cases "oi_hold intent")
    case True
    with assms nocap show ?thesis by (simp add: symbol_open_def frame_refl)
  next
    case False
    obtain r sim1 where c: "create_order M (simulator e)
        (if oi_volume intent > 0 then Buy else Sell) symbol (oi_modified_volume intent)
        (resolve_fee (fee e) symbol) = (r, sim1)"
      by (cases "create_order M (simulator e)
        (if oi_volume intent > 0 then Buy else Sell) symbol (oi_modified_volume intent)
        (resolve_fee (fee e) symbol)")
    from assms nocap False c have "e3 = e\<lparr>simulator := sim1\<rparr>"
      by (auto simp: symbol_open_def Let_def split: sum.splits py_error.splits)
    then show ?thesis by (simp add: frame_sim)
  qed
qed

lemma apply_symbol_Inr:
  assumes "apply_symbol M action i symbol (e, oi, ci) = Inr (e', oi', ci')"
  shows "\<exists>e2 intent cl intent'.
           symbol_decision M action i symbol e = Inr (e2, intent, cl)
         \<and> symbol_open M symbol e2 intent = Inr (e', intent')
         \<and> oi' = oi(symbol \<mapsto> intent') \<and> ci' = ci(symbol := ci symbol @ cl)"
proof -
  from assms obtain e2 intent cl
    where d: "symbol_decision M action i symbol e = Inr (e2, intent, cl)"
    unfolding apply_symbol_def bind_err_def
    by (cases "symbol_decision M action i symbol e") auto
  from assms d obtain e3 intent'
    where p: "symbol_open M symbol e2 intent = Inr (e3, intent')"
    unfolding apply_symbol_def bind_err_def
    by (cases "symbol_open M symbol e2 intent") auto
  from assms d p show ?thesis
    unfolding apply_symbol_def bind_err_def by auto
qed

lemma apply_symbol_frame:
  assumes "apply_symbol M action i symbol (e, oi, ci) = Inr (e', oi', ci')"
  shows "frame e e'"
proof -
  from apply_symbol_Inr [OF assms] obtain e2 intent cl intent'
    where "symbol_decision M action i symbol e = Inr (e2, intent, cl)"
      and "symbol_open M symbol e2 intent = Inr (e', intent')"
    by blast
  then show ?thesis
    by (blast intro: frame_trans symbol_decision_frame symbol_open_frame)
qed

lemma apply_symbols_Cons_Inr:
  assumes "apply_symbols M action ((i, symbol) # xs) st = Inr st'"
  shows "\<exists>st1. apply_symbol M action i symbol st = Inr st1
             \<and> apply_symbols M action xs st1 = Inr st'"
  using assms by (cases "apply_symbol M action i symbol st") (simp_all add: bind_err_def)

lemma apply_symbols_frame:
  "apply_symbols M action xs (e, oi, ci) = Inr (e', oi', ci') \<Longrightarrow> frame e e'"
proof (induction xs arbitrary: e oi ci)
  case Nil
  then show ?case by (simp add: frame_refl)
next
  case (Cons x xs)
  obtain i symbol where x: "x = (i, symbol)" by (cases x)
  from apply_symbols_Cons_Inr [OF Cons.prems [unfolded x]] obtain e1 oi1 ci1
    where a: "apply_symbol M action i symbol (e, oi, ci) = Inr (e1, oi1, ci1)"
      and b: "apply_symbols M action xs (e1, oi1, ci1) = Inr (e', oi', ci')"
    by (metis prod_cases3)
  from apply_symbol_frame [OF a] Cons.IH [OF b] show ?case
    by (rule frame_trans)
qed

lemma apply_action_frame:
  "apply_action M e action = Inr (e', oi, ci) \<Longrightarrow> frame e e'"
  unfolding apply_action_def by (rule apply_symbols_frame)

lemma bind_err_InrE:
  assumes "bind_err r f = Inr y"
  obtains v where "r = Inr v" and "f v = Inr y"
  using assms by (cases r) (simp_all add: bind_err_def)

lemma advance_tick_fields:
  "current_tick (advance_tick e) = current_tick e + 1"
  "truncated (advance_tick e) = (current_tick e + 1 = end_tick e \<or> truncated e)"
  "history (advance_tick e) = history e" "start_tick (advance_tick e) = start_tick e"
  "end_tick (advance_tick e) = end_tick e" "initial_balance (advance_tick e) = initial_balance e"
  "loss_cut (advance_tick e) = loss_cut e"
  "done_if_equity_zero (advance_tick e) = done_if_equity_zero e"
  "simulator (advance_tick e) = simulator e" "np_rng (advance_tick e) = np_rng e"
  "symbol_max_orders (advance_tick e) = symbol_max_orders e"
  "trading_symbols (advance_tick e) = trading_symbols e"
  by (simp_all add: advance_tick_def Let_def)

lemma step_results_Inr:
  assumes "step_results M e3 oi ci = Inr ((ob, reward, terminal, trunc, ir), e')"
  shows "\<exists>dt. e' = e3\<lparr>simulator := tick M (simulator e3) dt, history := history e3 @ [ir]\<rparr>
            \<and> step_terminal (e3\<lparr>simulator := tick M (simulator e3) dt\<rparr>) = Inr terminal
            \<and> get_observation M (e3\<lparr>simulator := tick M (simulator e3) dt\<rparr>) = Inr ob
            \<and> trunc = truncated e3"
  using assms unfolding step_results_def
  by (auto simp: Let_def elim!: bind_err_InrE)

lemma step_Inr:
  assumes "step M e action = Inr (r, e')"
  shows "\<exists>e1 oi ci. apply_action M e action = Inr (e1, oi, ci)
                 \<and> step_results M (advance_tick e1) oi ci = Inr (r, e')"
  using assms unfolding step_def by (auto elim!: bind_err_InrE)

lemma step_clock:
  assumes "step M e action = Inr ((ob, reward, terminal, trunc, ir), e')"
  shows "current_tick e' = current_tick e + 1 \<and> history e' = history e @ [ir]
       \<and> start_tick e' = start_tick e \<and> end_tick e' = end_tick e"
proof -
  from step_Inr [OF assms] obtain e1 oi ci
    where a: "apply_action M e action = Inr (e1, oi, ci)"
      and r: "step_results M (advance_tick e1) oi ci = Inr ((ob, reward, terminal, trunc, ir), e')"
    by blast
  from step_results_Inr [OF r] apply_action_frame [OF a] show ?thesis
    by (auto simp: advance_tick_fields frame_fields)
qed

lemma run_steps_clock:
  "run_steps M e actions = Inr (rs, e') \<Longrightarrow>
     length (history e') = length (history e) + length actions
   \<and> current_tick e' = current_tick e + int (length actions)
   \<and> start_tick e' = start_tick e \<and> length rs = length actions"
proof (induction actions arbitrary: e rs)
  case Nil
  then show ?case by simp
next
  case (Cons a actions)
  from Cons.prems obtain r e1 rs1
    where s: "step M e a = Inr (r, e1)"
      and t: "run_steps M e1 actions = Inr (rs1, e')" and rs: "rs = r # rs1"
    by (auto elim!: bind_err_InrE)
  obtain ob reward terminal trunc ir where r: "r = (ob, reward, terminal, trunc, ir)"
    by (cases r)
  from step_clock [OF s [unfolded r]] Cons.IH [OF t] rs show ?case
    by simp
qed

lemma reset_clock:
  assumes "reset N M e seed = Inr (r, e0)"
  shows "length (history e0) = 1 \<and> current_tick e0 = start_tick e0"
proof -
  from assms obtain e4
    where w: "(if time_split e then sample_time_window (reset_begin N e seed)
               else Inr (reset_begin N e seed)) = Inr e4"
      and f: "reset_finish M e4 = Inr (r, e0)"
    unfolding reset_def by (auto simp: Let_def reset_begin_config elim!: bind_err_InrE)
  have "current_tick e4 = start_tick e4"
  proof (cases "time_split e")
    case True
    with w sample_time_window_Inr [of "reset_begin N e seed" e4] show ?thesis by simp
  next
    case False
    with w show ?thesis by (auto simp: reset_begin_config)
  qed
  with reset_finish_Inr [OF f] show ?thesis by simp
qed

text \<open>
  Claim C6. After \<^verbatim>\<open>reset\<close> and after every further \<^verbatim>\<open>step\<close> of the episode, the
  history holds \<open>current_tick - start_tick + 1\<close> records: \<^verbatim>\<open>reset\<close> leaves one record
  with the clock at \<open>start_tick\<close>, and each step appends one record and advances the
  clock by one.
\<close>

theorem history_length_tracks_clock:
  assumes "run_episode N M e seed actions = Inr (first, rs, e')"
  shows "int (length (history e')) = current_tick e' - start_tick e' + 1
       \<and> length (history e') = length actions + 1
       \<and> current_tick e' = start_tick e' + int (length actions)"
proof -
  from assms obtain e0
    where r: "reset N M e seed = Inr (first, e0)" and s: "run_steps M e0 actions = Inr (rs, e')"
    unfolding run_episode_def by (auto elim!: bind_err_InrE)
  from reset_clock [OF r] run_steps_clock [OF s] show ?thesis
    by simp
qed

lemmas run_defs = run_episode_def reset_def reset_begin_def reset_finish_def
  sample_time_window_def rng_integers_def get_observation_def create_info_def order_rows_def
  py_index_def py_slice_def step_def step_results_def advance_tick_def apply_action_def
  apply_symbol_def symbol_decision_def symbol_open_def decode_symbol_action_def
  select_closes_def get_modified_volume_def logit_probability_def expit_def np_clip_def
  py_round_def rng_choice_def uniform_def resolve_fee_def calculate_reward_def
  calculate_log_reward_def step_terminal_def closed_order_info_def

lemma demo_two_steps:
  "\<exists>x. run_episode demo_random demo_simulator demo_env (Some 0) [[0, 0, 0], [0, 0, 0]] = Inr x"
  by (simp add: run_defs demo_defs Let_def)

theorem history_length_tracks_clock_witness:
  "\<exists>first rs e'.
     run_episode demo_random demo_simulator demo_env (Some 0) [[0, 0, 0], [0, 0, 0]]
       = Inr (first, rs, e')
     \<and> int (length (history e')) = current_tick e' - start_tick e' + 1
     \<and> length (history e') = 3"
proof -
  from demo_two_steps obtain first rs e'
    where run: "run_episode demo_random demo_simulator demo_env (Some 0)
                  [[0, 0, 0], [0, 0, 0]] = Inr (first, rs, e')"
    by (metis prod_cases3)
  from history_length_tracks_clock [OF run] run show ?thesis
    by auto
qed

subsection \<open>Termination\<close>

text \<open>
  What \<^verbatim>\<open>step\<close> returns as its termination flag: the loss-cut test alone once a
  loss-cut ratio is configured, the zero-equity test otherwise.
\<close>

lemma step_terminated_flag:
  assumes "step M e action = Inr ((ob, reward, terminal, trunc, ir), e')"
  shows "terminal = (case loss_cut e of
                       None \<Rightarrow> done_if_equity_zero e \<and> equity (simulator e') = 0
                     | Some lc \<Rightarrow> equity (simulator e') / initial_balance e < lc)"
proof -
  from step_Inr [OF assms] obtain e1 oi ci
    where a: "apply_action M e action = Inr (e1, oi, ci)"
      and r: "step_results M (advance_tick e1) oi ci = Inr ((ob, reward, terminal, trunc, ir), e')"
    by blast
  from step_results_Inr [OF r] obtain dt
    where e': "e' = (advance_tick e1)\<lparr>simulator := tick M (simulator (advance_tick e1)) dt,
                                      history := history (advance_tick e1) @ [ir]\<rparr>"
      and t: "step_terminal ((advance_tick e1)\<lparr>simulator :=
                 tick M (simulator (advance_tick e1)) dt\<rparr>) = Inr terminal"
    by blast
  note f = frame_fields [OF apply_action_frame [OF a]]
  from t show ?thesis
    unfolding e' by (auto simp: step_terminal_def Let_def advance_tick_fields f
        split: option.splits if_splits)
qed

text \<open>
  Claim C1 at a failing input. Termination on zero equity is enabled and the loss-cut
  ratio is 0; the tick leaves an equity of exactly 0 on an initial balance of 10000. The
  flag of the zero-equity test is overwritten by the loss-cut test \<open>0 / 10000 < 0\<close>, and
  \<^verbatim>\<open>step\<close> returns \<^verbatim>\<open>terminated = False\<close>.
\<close>

theorem zero_equity_not_terminal:
  "\<exists>first ob reward ir e'.
     run_episode demo_random crash_simulator bankrupt_env (Some 0) [[0, 0, 0]]
       = Inr (first, [(ob, reward, False, False, ir)], e')
     \<and> equity (simulator e') = 0 \<and> done_if_equity_zero e' \<and> loss_cut e' = Some 0
     \<and> initial_balance e' = 10000"
  by (simp add: run_defs demo_defs crash_simulator_def bankrupt_env_def Let_def)

subsection \<open>Seeds\<close>

lemma reset_begin_seeded:
  "reset_begin N (e\<lparr>np_rng := g, truncated := t, current_tick := c, simulator := sim,
                    history := h, initial_balance := b\<rparr>) (Some seed)
   = (reset_begin N e (Some seed))\<lparr>history := h\<rparr>"
  by (simp add: reset_begin_def Let_def split_beta)

lemma sample_time_window_history:
  "sample_time_window (e\<lparr>history := h\<rparr>)
   = (case sample_time_window e of Inl err \<Rightarrow> Inl err | Inr e' \<Rightarrow> Inr (e'\<lparr>history := h\<rparr>))"
  by (simp add: sample_time_window_def Let_def split: prod.splits sum.splits)

lemma reset_finish_history:
  "reset_finish M (e\<lparr>history := h\<rparr>) = reset_finish M e"
  by (simp add: reset_finish_def Let_def create_info_def)

lemma reset_begin_ticks:
  "reset_begin N (e\<lparr>start_tick := st, end_tick := en\<rparr>) seed
   = (reset_begin N e seed)\<lparr>start_tick := st, end_tick := en, current_tick := st\<rparr>"
  by (simp add: reset_begin_def Let_def split_beta split: option.splits)

lemma sample_time_window_ticks:
  "sample_time_window (e\<lparr>start_tick := st, end_tick := en, current_tick := c\<rparr>)
   = sample_time_window e"
  by (simp add: sample_time_window_def Let_def split: prod.splits sum.splits)

lemma reset_seeded_state:
  "reset N M (e\<lparr>np_rng := g, truncated := t, current_tick := c, simulator := sim,
               history := h, initial_balance := b\<rparr>) (Some seed)
   = reset N M e (Some seed)"
proof -
  let ?b = "reset_begin N e (Some seed)"
  have ts: "time_split (?b\<lparr>history := h\<rparr>) = time_split ?b"
    by simp
  show ?thesis
  proof (cases "time_split ?b")
    case True
    then show ?thesis
      unfolding reset_def reset_begin_seeded Let_def ts
      by (cases "sample_time_window ?b")
         (simp_all add: sample_time_window_history reset_finish_history)
  next
    case False
    then show ?thesis
      unfolding reset_def reset_begin_seeded Let_def ts
      by (simp add: reset_finish_history)
  qed
qed

lemma reset_window_ticks:
  assumes "time_split e"
  shows "reset N M (e\<lparr>start_tick := st, end_tick := en\<rparr>) seed = reset N M e seed"
  using assms
  by (simp add: reset_def Let_def reset_begin_ticks reset_begin_config
      sample_time_window_ticks)

lemma reset_seed_replaces:
  "reset N M e (Some seed) = reset N M (e\<lparr>np_rng := default_rng N seed\<rparr>) None"
  by (simp add: reset_def reset_begin_def Let_def)

lemma reset_unseeded_rng:
  assumes "reset N M e None = Inr (r, e')" and "\<not> randomize_initial_balance e"
  shows "np_rng e' = (if time_split e then stl (stl (np_rng e)) else np_rng e)"
proof -
  have b: "np_rng (reset_begin N e None) = np_rng e"
    using assms(2) by (simp add: reset_begin_def Let_def)
  from assms(1) obtain e4
    where w: "(if time_split e then sample_time_window (reset_begin N e None)
               else Inr (reset_begin N e None)) = Inr e4"
      and f: "reset_finish M e4 = Inr (r, e')"
    unfolding reset_def by (auto simp: Let_def reset_begin_config elim!: bind_err_InrE)
  show ?thesis
  proof (cases "time_split e")
    case True
    with w sample_time_window_Inr [of "reset_begin N e None" e4] reset_finish_Inr [OF f] b
    show ?thesis by simp
  next
    case False
    with w reset_finish_Inr [OF f] b show ?thesis by auto
  qed
qed

text \<open>
  Claim C9. An episode started by \<^verbatim>\<open>reset\<close> with a seed does not depend on the episode
  state the environment was left in (generator, clock, simulator, history, initial
  balance, and with time-windowing also the previous window): two runs with the same
  seed and the same actions return the same observations, rewards, flags and info
  records. A seed replaces the generator and \<^verbatim>\<open>reset\<close> then proceeds as without a seed;
  without a seed the generator of the previous episode is used, and (with the
  randomisation of the balance off) it is passed on as it is, or advanced by the two
  draws of the time window.
\<close>

theorem seeded_episode_reproducible:
  fixes e :: "'x mt_env"
  shows "run_episode N M (e\<lparr>np_rng := g, truncated := t, current_tick := c, simulator := sim,
                           history := h, initial_balance := b\<rparr>) (Some seed) actions
           = run_episode N M e (Some seed) actions
       \<and> (time_split e \<longrightarrow>
            run_episode N M (e\<lparr>np_rng := g, start_tick := st, end_tick := en, truncated := t,
                              current_tick := c, simulator := sim, history := h,
                              initial_balance := b\<rparr>) (Some seed) actions
              = run_episode N M e (Some seed) actions)
       \<and> reset N M e (Some seed) = reset N M (e\<lparr>np_rng := default_rng N seed\<rparr>) None
       \<and> (\<not> randomize_initial_balance e \<and> reset N M e None = Inr (r, e') \<longrightarrow>
            np_rng e' = (if time_split e then stl (stl (np_rng e)) else np_rng e))"
proof (intro conjI impI)
  show "run_episode N M (e\<lparr>np_rng := g, truncated := t, current_tick := c, simulator := sim,
                           history := h, initial_balance := b\<rparr>) (Some seed) actions
           = run_episode N M e (Some seed) actions"
    unfolding run_episode_def reset_seeded_state ..
next
  assume ts: "time_split e"
  have "e\<lparr>np_rng := g, start_tick := st, end_tick := en, truncated := t, current_tick := c,
          simulator := sim, history := h, initial_balance := b\<rparr>
        = (e\<lparr>start_tick := st, end_tick := en\<rparr>)\<lparr>np_rng := g, truncated := t,
             current_tick := c, simulator := sim, history := h, initial_balance := b\<rparr>"
    by simp
  then have "reset N M (e\<lparr>np_rng := g, start_tick := st, end_tick := en, truncated := t,
                          current_tick := c, simulator := sim, history := h,
                          initial_balance := b\<rparr>) (Some seed)
             = reset N M (e\<lparr>start_tick := st, end_tick := en\<rparr>) (Some seed)"
    by (simp only: reset_seeded_state)
  also have "\<dots> = reset N M e (Some seed)"
    using ts by (rule reset_window_ticks)
  finally show "run_episode N M (e\<lparr>np_rng := g, start_tick := st, end_tick := en,
                   truncated := t, current_tick := c, simulator := sim, history := h,
                   initial_balance := b\<rparr>) (Some seed) actions
                 = run_episode N M e (Some seed) actions"
    unfolding run_episode_def by simp
next
  show "reset N M e (Some seed) = reset N M (e\<lparr>np_rng := default_rng N seed\<rparr>) None"
    by (rule reset_seed_replaces)
next
  assume "\<not> randomize_initial_balance e \<and> reset N M e None = Inr (r, e')"
  then show "np_rng e' = (if time_split e then stl (stl (np_rng e)) else np_rng e)"
    using reset_unseeded_rng by blast
qed

lemma demo_window_episode:
  "\<exists>x. run_episode demo_random demo_simulator (demo_env\<lparr>time_split := True\<rparr>) (Some 3)
          [[0, 0, 0]] = Inr x"
  by (simp add: run_defs demo_defs Let_def)

lemma demo_window_unseeded:
  "\<exists>x. reset demo_random demo_simulator (demo_env\<lparr>time_split := True\<rparr>) None = Inr x"
  by (simp add: run_defs demo_defs Let_def)

theorem seeded_episode_reproducible_witness:
  "time_split (demo_env\<lparr>time_split := True\<rparr>)
   \<and> run_episode demo_random demo_simulator
        (demo_env\<lparr>time_split := True, np_rng := sconst 7, start_tick := 5, end_tick := 6,
                  truncated := True, current_tick := 9, simulator := coarse_state,
                  history := [demo_info 1], initial_balance := 1\<rparr>) (Some 3) [[0, 0, 0]]
      = run_episode demo_random demo_simulator (demo_env\<lparr>time_split := True\<rparr>) (Some 3)
          [[0, 0, 0]]
   \<and> (\<exists>x. run_episode demo_random demo_simulator (demo_env\<lparr>time_split := True\<rparr>) (Some 3)
             [[0, 0, 0]] = Inr x)
   \<and> \<not> randomize_initial_balance (demo_env\<lparr>time_split := True\<rparr>)
   \<and> (\<exists>r e'. reset demo_random demo_simulator (demo_env\<lparr>time_split := True\<rparr>) None
                = Inr (r, e')
             \<and> np_rng e' = stl (stl (np_rng (demo_env\<lparr>time_split := True\<rparr>))))"
proof -
  let ?e = "demo_env\<lparr>time_split := True\<rparr>"
  have ts: "time_split ?e"
    by simp
  have nr: "\<not> randomize_initial_balance ?e"
    by (simp add: demo_env_def)
  from demo_window_unseeded obtain r e'
    where un: "reset demo_random demo_simulator ?e None = Inr (r, e')"
    by (metis prod.exhaust)
  note inst = seeded_episode_reproducible [where N = demo_random and M = demo_simulator
      and e = ?e and g = "sconst 7" and t = True and c = 9 and sim = coarse_state
      and h = "[demo_info 1]" and b = 1 and seed = 3 and actions = "[[0, 0, 0]]"
      and st = 5 and en = 6 and r = r and e' = e']
  from inst ts
  have "run_episode demo_random demo_simulator
          (?e\<lparr>np_rng := sconst 7, start_tick := 5, end_tick := 6, truncated := True,
              current_tick := 9, simulator := coarse_state, history := [demo_info 1],
              initial_balance := 1\<rparr>) (Some 3) [[0, 0, 0]]
        = run_episode demo_random demo_simulator ?e (Some 3) [[0, 0, 0]]"
    by blast
  moreover from inst nr un ts have "np_rng e' = stl (stl (np_rng ?e))"
    by simp
  ultimately show ?thesis
    using ts nr un demo_window_episode by auto
qed

subsection \<open>The order request\<close>




lemmas decision_defs = symbol_decision_def decode_symbol_action_def select_closes_def
  get_modified_volume_def logit_probability_def expit_def np_clip_def py_round_def
  rng_choice_def uniform_def closed_order_info_def




subsection \<open>Errors of a step\<close>


























subsection \<open>Open orders\<close>

lemma subset_add_mset: "A \<subseteq># B \<Longrightarrow> A \<subseteq># add_mset x B"
  by (simp add: subseteq_mset_def le_SucI)

lemma filtered_zip_mset: "mset (map snd (filter fst (zip cs zs))) \<subseteq># mset zs"
proof (induction cs arbitrary: zs)
  case Nil
  show ?case by simp
next
  case (Cons c cs)
  show ?case
  proof (cases zs)
    case Nil
    then show ?thesis by simp
  next
    case (Cons z zs')
    from Cons.IH [of zs'] subset_add_mset [OF Cons.IH [of zs'], of z] show ?thesis
      unfolding Cons by simp
  qed
qed

lemma zip_fst_mset: "mset (map fst (zip L ps)) \<subseteq># mset L"
proof (induction L arbitrary: ps)
  case Nil
  show ?case by simp
next
  case (Cons x L)
  show ?case
  proof (cases ps)
    case Nil
    then show ?thesis by simp
  next
    case (Cons p ps')
    with Cons.IH [of ps'] show ?thesis by simp
  qed
qed

lemma selected_mset:
  "mset (map fst (map snd (filter fst (zip cs (zip L ps))))) \<subseteq># mset L"
proof -
  have "image_mset fst (mset (map snd (filter fst (zip cs (zip L ps)))))
        \<subseteq># image_mset fst (mset (zip L ps))"
    by (rule image_mset_subseteq_mono) (rule filtered_zip_mset)
  moreover have "image_mset fst (mset (zip L ps)) \<subseteq># mset L"
    using zip_fst_mset [of L ps] by (simp only: mset_map)
  ultimately have "image_mset fst (mset (map snd (filter fst (zip cs (zip L ps))))) \<subseteq># mset L"
    by (rule subset_mset.order_trans)
  then show ?thesis
    by (simp only: mset_map)
qed

lemma length_remove1_mem: "x \<in> set L \<Longrightarrow> length (remove1 x L) + 1 = length L"
  using length_pos_if_in_set [of x L] by (simp add: length_remove1)

lemma add_mset_subset_mem:
  "add_mset x A \<subseteq># mset L \<Longrightarrow> x \<in> set L \<and> A \<subseteq># mset (remove1 x L)"
  by (simp add: insert_subset_eq_iff)

lemma select_closes_mset:
  assumes "select_closes g L cp = (otc, g')"
  shows "mset (map fst otc) \<subseteq># mset L"
proof (cases "length L > 0")
  case True
  with assms have "otc = map snd (filter fst (zip (fst (sample_closes g (take (length L) cp)))
                                   (zip L (take (length L) cp))))"
    by (auto simp: select_closes_def Let_def split_beta)
  then show ?thesis
    by (simp only: selected_mset)
next
  case False
  with assms show ?thesis
    by (simp add: select_closes_def)
qed

lemma keeps_books_close:
  assumes "keeps_books M"
  shows "hedge (snd (close_order M sim ord)) = hedge sim"
    and "length (symbol_orders M (snd (close_order M sim ord)) s) \<le> length (symbol_orders M sim s)"
    and "ord \<in> set (symbol_orders M sim s) \<Longrightarrow>
           symbol_orders M (snd (close_order M sim ord)) s = remove1 ord (symbol_orders M sim s)"
  using assms unfolding keeps_books_def by blast+

lemma keeps_books_create:
  assumes "keeps_books M"
  shows "hedge (snd (create_order M sim ot symbol v f)) = hedge sim"
    and "s \<noteq> symbol \<Longrightarrow> length (symbol_orders M (snd (create_order M sim ot symbol v f)) s)
                          \<le> length (symbol_orders M sim s)"
    and "hedge sim \<Longrightarrow> length (symbol_orders M (snd (create_order M sim ot symbol v f)) symbol)
                          \<le> length (symbol_orders M sim symbol) + 1"
    and "\<not> hedge sim \<Longrightarrow>
           length (symbol_orders M (snd (create_order M sim ot symbol v f)) symbol)
             \<le> max 1 (length (symbol_orders M sim symbol))"
  using assms unfolding keeps_books_def by blast+

lemma keeps_books_tick:
  assumes "keeps_books M"
  shows "hedge (tick M sim dt) = hedge sim"
    and "length (symbol_orders M (tick M sim dt) s) \<le> length (symbol_orders M sim s)"
  using assms unfolding keeps_books_def by blast+

lemma close_orders_Cons:
  "close_orders M sim ((ord, p) # rest)
   = (fst (close_orders M (snd (close_order M sim ord)) rest),
      closed_order_info (fst (close_order M sim ord)) p
        # snd (close_orders M (snd (close_order M sim ord)) rest))"
  by (simp add: split_beta Let_def)

lemma close_orders_monotone:
  assumes "keeps_books M"
  shows "hedge (fst (close_orders M sim otc)) = hedge sim
       \<and> length (symbol_orders M (fst (close_orders M sim otc)) s)
           \<le> length (symbol_orders M sim s)"
proof (induction otc arbitrary: sim)
  case Nil
  show ?case by simp
next
  case (Cons x otc)
  obtain ord p where x: "x = (ord, p)" by (cases x)
  from Cons.IH [of "snd (close_order M sim ord)"] keeps_books_close(1) [OF assms, of sim ord]
    keeps_books_close(2) [OF assms, of sim ord s]
  show ?case
    unfolding x close_orders_Cons by simp
qed

lemma close_orders_removed:
  assumes "keeps_books M"
  shows "mset (map fst otc) \<subseteq># mset (symbol_orders M sim symbol) \<Longrightarrow>
         length (symbol_orders M (fst (close_orders M sim otc)) symbol) + length otc
           \<le> length (symbol_orders M sim symbol)"
proof (induction otc arbitrary: sim)
  case Nil
  show ?case by simp
next
  case (Cons x otc)
  obtain ord p where x: "x = (ord, p)" by (cases x)
  let ?L = "symbol_orders M sim symbol"
  let ?sim1 = "snd (close_order M sim ord)"
  from Cons.prems have "add_mset ord (mset (map fst otc)) \<subseteq># mset ?L"
    by (simp add: x)
  from add_mset_subset_mem [OF this]
  have mem: "ord \<in> set ?L" and sub: "mset (map fst otc) \<subseteq># mset (remove1 ord ?L)"
    by simp_all
  from mem have L1: "symbol_orders M ?sim1 symbol = remove1 ord ?L"
    by (rule keeps_books_close(3) [OF assms])
  from sub have "mset (map fst otc) \<subseteq># mset (symbol_orders M ?sim1 symbol)"
    by (simp only: L1)
  from Cons.IH [OF this]
  have "length (symbol_orders M (fst (close_orders M ?sim1 otc)) symbol) + length otc
          \<le> length (remove1 ord ?L)"
    by (simp only: L1)
  with length_remove1_mem [OF mem] show ?case
    unfolding x close_orders_Cons by simp
qed

lemma within_capacity_mono:
  assumes "within_capacity M e"
    and "trading_symbols e' = trading_symbols e" and "symbol_max_orders e' = symbol_max_orders e"
    and "hedge (simulator e') = hedge (simulator e)"
    and "\<And>s. length (symbol_orders M (simulator e') s) \<le> length (symbol_orders M (simulator e) s)"
  shows "within_capacity M e'"
  unfolding within_capacity_def
proof
  fix s
  assume "s \<in> set (trading_symbols e')"
  with assms(1,2,3)
  have "length (symbol_orders M (simulator e) s)
          \<le> (if hedge (simulator e) then symbol_max_orders e' else 1)"
    unfolding within_capacity_def by auto
  with assms(4) assms(5) [of s]
  show "length (symbol_orders M (simulator e') s)
          \<le> (if hedge (simulator e') then symbol_max_orders e' else 1)"
    by simp
qed

lemma within_capacity_frame:
  assumes "within_capacity M e" and "frame e e'"
    and "hedge (simulator e') = hedge (simulator e)"
    and "\<And>s. length (symbol_orders M (simulator e') s) \<le> length (symbol_orders M (simulator e) s)"
  shows "within_capacity M e'"
  using assms(1) frame_fields(8,7) [OF assms(2)] assms(3,4) by (rule within_capacity_mono)

lemma symbol_decision_capacity:
  assumes K: "keeps_books M" and inv: "within_capacity M e"
    and dec: "symbol_decision M action i symbol e = Inr (e2, intent, cl)"
  shows "within_capacity M e2"
    and "hedge (simulator e2) = hedge (simulator e)"
    and "symbol \<in> set (trading_symbols e) \<Longrightarrow> hedge (simulator e) \<Longrightarrow>
           0 \<le> oi_capacity intent
         \<and> int (length (symbol_orders M (simulator e2) symbol))
             \<le> int (symbol_max_orders e2) - oi_capacity intent"
proof -
  from symbol_decision_Inr [OF dec] obtain cp hp otc g2
    where sel: "select_closes (snd (rng_choice (np_rng e) hp))
                  (symbol_orders M (simulator e) symbol) cp = (otc, g2)"
      and e2: "e2 = e\<lparr>np_rng := g2, simulator := fst (close_orders M (simulator e) otc)\<rparr>"
      and cap: "oi_capacity intent = int (symbol_max_orders e)
                   - (int (length (symbol_orders M (simulator e) symbol)) - int (length otc))"
    by auto
  have sim2: "simulator e2 = fst (close_orders M (simulator e) otc)"
    and max2: "symbol_max_orders e2 = symbol_max_orders e"
    unfolding e2 by simp_all
  note mono = close_orders_monotone [OF K, of "simulator e" otc]
  show h: "hedge (simulator e2) = hedge (simulator e)"
    unfolding sim2 using mono by simp
  show "within_capacity M e2"
  proof (rule within_capacity_frame [OF inv symbol_decision_frame [OF dec] h])
    fix s
    show "length (symbol_orders M (simulator e2) s) \<le> length (symbol_orders M (simulator e) s)"
      unfolding sim2 using mono by simp
  qed
  assume mem: "symbol \<in> set (trading_symbols e)" and hedged: "hedge (simulator e)"
  from inv mem hedged
  have le: "length (symbol_orders M (simulator e) symbol) \<le> symbol_max_orders e"
    unfolding within_capacity_def by auto
  from close_orders_removed [OF K select_closes_mset [OF sel]]
  have "length (symbol_orders M (simulator e2) symbol) + length otc
          \<le> length (symbol_orders M (simulator e) symbol)"
    unfolding sim2 .
  with le cap show "0 \<le> oi_capacity intent
         \<and> int (length (symbol_orders M (simulator e2) symbol))
             \<le> int (symbol_max_orders e2) - oi_capacity intent"
    unfolding max2 by linarith
qed

lemma symbol_open_state:
  assumes "symbol_open M symbol e intent = Inr (e3, intent')"
  shows "e3 = e
       \<or> (\<not> (hedge (simulator e) \<and> oi_capacity intent = 0)
          \<and> (\<exists>ot v f. e3 = e\<lparr>simulator := snd (create_order M (simulator e) ot symbol v f)\<rparr>))"
proof (cases "hedge (simulator e) \<and> oi_capacity intent = 0")
  case True
  with assms show ?thesis by (simp add: symbol_open_def)
next
  case nocap: False
  show ?thesis
  proof (cases "oi_hold intent")
    case True
    with assms nocap show ?thesis by (simp add: symbol_open_def)
  next
    case False
    let ?c = "create_order M (simulator e) (if oi_volume intent > 0 then Buy else Sell) symbol
                (oi_modified_volume intent) (resolve_fee (fee e) symbol)"
    obtain r sim1 where c: "?c = (r, sim1)"
      by (cases ?c)
    from assms nocap False c have "e3 = e\<lparr>simulator := sim1\<rparr>"
      by (auto simp: symbol_open_def Let_def split: sum.splits py_error.splits)
    moreover from c have "sim1 = snd ?c"
      by simp
    ultimately show ?thesis
      using nocap by blast
  qed
qed

lemma symbol_open_capacity:
  assumes K: "keeps_books M" and inv: "within_capacity M e"
    and mem: "symbol \<in> set (trading_symbols e)"
    and cap: "hedge (simulator e) \<Longrightarrow>
                0 \<le> oi_capacity intent
              \<and> int (length (symbol_orders M (simulator e) symbol))
                  \<le> int (symbol_max_orders e) - oi_capacity intent"
    and op: "symbol_open M symbol e intent = Inr (e3, intent')"
  shows "within_capacity M e3"
proof -
  from symbol_open_state [OF op] show ?thesis
  proof
    assume "e3 = e"
    with inv show ?thesis by simp
  next
    assume "\<not> (hedge (simulator e) \<and> oi_capacity intent = 0)
          \<and> (\<exists>ot v f. e3 = e\<lparr>simulator := snd (create_order M (simulator e) ot symbol v f)\<rparr>)"
    then obtain ot v f
      where nocap: "\<not> (hedge (simulator e) \<and> oi_capacity intent = 0)"
        and e3: "e3 = e\<lparr>simulator := snd (create_order M (simulator e) ot symbol v f)\<rparr>"
      by blast
    let ?sim' = "snd (create_order M (simulator e) ot symbol v f)"
    note C = keeps_books_create [OF K, where sim = "simulator e" and ot = ot
        and symbol = symbol and v = v and f = f]
    show ?thesis
      unfolding within_capacity_def
    proof
      fix s
      assume "s \<in> set (trading_symbols e3)"
      then have s: "s \<in> set (trading_symbols e)"
        unfolding e3 by simp
      from inv s have old: "length (symbol_orders M (simulator e) s)
                              \<le> (if hedge (simulator e) then symbol_max_orders e else 1)"
        unfolding within_capacity_def by blast
      have "length (symbol_orders M ?sim' s)
              \<le> (if hedge (simulator e) then symbol_max_orders e else 1)"
      proof (cases "s = symbol")
        case False
        with C(2) [where s = s] old show ?thesis by simp
      next
        case same: True
        show ?thesis
        proof (cases "hedge (simulator e)")
          case True
          with cap nocap have "int (length (symbol_orders M (simulator e) symbol)) + 1
                                 \<le> int (symbol_max_orders e)"
            by linarith
          with C(3) [OF True] True show ?thesis
            unfolding same by simp
        next
          case False
          with C(4) [OF False] old show ?thesis
            unfolding same by simp
        qed
      qed
      with C(1) show "length (symbol_orders M (simulator e3) s)
                        \<le> (if hedge (simulator e3) then symbol_max_orders e3 else 1)"
        unfolding e3 by (auto split: if_splits)
    qed
  qed
qed

lemma apply_symbol_capacity:
  assumes K: "keeps_books M" and inv: "within_capacity M e"
    and mem: "symbol \<in> set (trading_symbols e)"
    and ap: "apply_symbol M action i symbol (e, oi, ci) = Inr (e', oi', ci')"
  shows "within_capacity M e'"
proof -
  from apply_symbol_Inr [OF ap] obtain e2 intent cl intent'
    where dec: "symbol_decision M action i symbol e = Inr (e2, intent, cl)"
      and op: "symbol_open M symbol e2 intent = Inr (e', intent')"
    by blast
  note D = symbol_decision_capacity [OF K inv dec]
  note f = frame_fields [OF symbol_decision_frame [OF dec]]
  from mem f have mem2: "symbol \<in> set (trading_symbols e2)"
    by simp
  have "hedge (simulator e2) \<Longrightarrow>
                0 \<le> oi_capacity intent
              \<and> int (length (symbol_orders M (simulator e2) symbol))
                  \<le> int (symbol_max_orders e2) - oi_capacity intent"
    using D(3) [OF mem] D(2) by simp
  from symbol_open_capacity [OF K D(1) mem2 this op] show ?thesis .
qed

lemma apply_symbols_capacity:
  assumes K: "keeps_books M"
  shows "within_capacity M e \<Longrightarrow> snd ` set xs \<subseteq> set (trading_symbols e) \<Longrightarrow>
         apply_symbols M action xs (e, oi, ci) = Inr (e', oi', ci') \<Longrightarrow> within_capacity M e'"
proof (induction xs arbitrary: e oi ci)
  case Nil
  then show ?case by simp
next
  case (Cons x xs)
  obtain i symbol where x: "x = (i, symbol)" by (cases x)
  from apply_symbols_Cons_Inr [OF Cons.prems(3) [unfolded x]] obtain e1 oi1 ci1
    where a: "apply_symbol M action i symbol (e, oi, ci) = Inr (e1, oi1, ci1)"
      and b: "apply_symbols M action xs (e1, oi1, ci1) = Inr (e', oi', ci')"
    by (metis prod_cases3)
  from Cons.prems(2) x have mem: "symbol \<in> set (trading_symbols e)"
    by simp
  from apply_symbol_capacity [OF K Cons.prems(1) mem a] have inv1: "within_capacity M e1" .
  from Cons.prems(2) frame_fields(8) [OF apply_symbol_frame [OF a]]
  have "snd ` set xs \<subseteq> set (trading_symbols e1)"
    by simp
  from Cons.IH [OF inv1 this b] show ?case .
qed

lemma apply_action_capacity:
  assumes "keeps_books M" and "within_capacity M e"
    and "apply_action M e action = Inr (e1, oi, ci)"
  shows "within_capacity M e1"
proof -
  have "snd ` set (enumerate 0 (trading_symbols e)) \<subseteq> set (trading_symbols e)"
    by (auto simp: in_set_enumerate_eq)
  from apply_symbols_capacity [OF assms(1,2) this assms(3) [unfolded apply_action_def]]
  show ?thesis .
qed

lemma step_capacity:
  assumes K: "keeps_books M" and inv: "within_capacity M e"
    and st: "step M e action = Inr (r, e')"
  shows "within_capacity M e'"
proof -
  from step_Inr [OF st] obtain e1 oi ci
    where a: "apply_action M e action = Inr (e1, oi, ci)"
      and r: "step_results M (advance_tick e1) oi ci = Inr (r, e')"
    by blast
  obtain ob reward terminal trunc ir where "r = (ob, reward, terminal, trunc, ir)"
    by (cases r)
  from step_results_Inr [OF r [unfolded this]] obtain dt
    where e': "e' = (advance_tick e1)\<lparr>simulator := tick M (simulator (advance_tick e1)) dt,
                                      history := history (advance_tick e1) @ [ir]\<rparr>"
    by blast
  from apply_action_capacity [OF K inv a] show ?thesis
  proof (rule within_capacity_mono)
    show "trading_symbols e' = trading_symbols e1"
      and "symbol_max_orders e' = symbol_max_orders e1"
      unfolding e' by (simp_all add: advance_tick_fields)
    show "hedge (simulator e') = hedge (simulator e1)"
      unfolding e' by (simp add: advance_tick_fields keeps_books_tick(1) [OF K])
    fix s
    show "length (symbol_orders M (simulator e') s) \<le> length (symbol_orders M (simulator e1) s)"
      unfolding e' by (simp add: advance_tick_fields keeps_books_tick(2) [OF K])
  qed
qed

lemma run_steps_capacity:
  assumes K: "keeps_books M"
  shows "within_capacity M e \<Longrightarrow> run_steps M e actions = Inr (rs, e') \<Longrightarrow> within_capacity M e'"
proof (induction actions arbitrary: e rs)
  case Nil
  then show ?case by simp
next
  case (Cons a actions)
  from Cons.prems(2) obtain r e1 rs1
    where s: "step M e a = Inr (r, e1)" and t: "run_steps M e1 actions = Inr (rs1, e')"
    by (auto elim!: bind_err_InrE)
  from Cons.IH [OF step_capacity [OF K Cons.prems(1) s] t] show ?case .
qed

lemma orders_tensor_Inr:
  "orders_tensor M e syms = Inr blocks \<Longrightarrow>
     \<forall>s \<in> set syms. length (symbol_orders M (simulator e) s) \<le> symbol_max_orders e"
proof (induction syms arbitrary: blocks)
  case Nil
  show ?case by simp
next
  case (Cons s syms)
  from Cons.prems obtain rows rest
    where r: "order_rows (symbol_max_orders e) (symbol_orders M (simulator e) s) = Inr rows"
      and t: "orders_tensor M e syms = Inr rest"
    by (auto elim!: bind_err_InrE)
  from r have "length (symbol_orders M (simulator e) s) \<le> symbol_max_orders e"
    by (auto simp: order_rows_def split: if_splits)
  with Cons.IH [OF t] show ?case by simp
qed

lemma reset_begin_book:
  "trading_symbols (reset_begin N e seed) = trading_symbols e"
  "symbol_max_orders (reset_begin N e seed) = symbol_max_orders e"
  "hedge (simulator (reset_begin N e seed)) = hedge (original_simulator e)"
  by (simp_all add: reset_begin_def Let_def split_beta split: option.splits)

lemma reset_capacity:
  assumes r: "reset N M e seed = Inr (first, e0)"
    and one: "hedge (original_simulator e) \<or> symbol_max_orders e = 1"
  shows "within_capacity M e0"
proof -
  let ?b = "reset_begin N e seed"
  from r obtain e4
    where w: "(if time_split e then sample_time_window ?b else Inr ?b) = Inr e4"
      and f: "reset_finish M e4 = Inr (first, e0)"
    unfolding reset_def by (auto simp: Let_def reset_begin_config elim!: bind_err_InrE)
  have e4: "trading_symbols e4 = trading_symbols e \<and> symbol_max_orders e4 = symbol_max_orders e
          \<and> hedge (simulator e4) = hedge (original_simulator e)"
  proof (cases "time_split e")
    case True
    with w have "sample_time_window ?b = Inr e4" by simp
    from sample_time_window_Inr [OF this]
    have "e4 = ?b\<lparr>np_rng := np_rng e4, start_tick := start_tick e4, end_tick := end_tick e4,
                   current_tick := current_tick e4\<rparr>"
      by blast
    then have "trading_symbols e4 = trading_symbols ?b \<and> symbol_max_orders e4 = symbol_max_orders ?b
             \<and> simulator e4 = simulator ?b"
      by (metis mt_env.select_convs(2,6,26) mt_env.surjective mt_env.update_convs(21,22,23,25))
    then show ?thesis by (simp add: reset_begin_book)
  next
    case False
    with w have "e4 = ?b" by simp
    then show ?thesis by (simp add: reset_begin_book)
  qed
  from f obtain t ob
    where e0: "e0 = e4\<lparr>simulator := (simulator e4)\<lparr>current_time := t\<rparr>,
                     history := [create_info M (e4\<lparr>simulator := (simulator e4)\<lparr>current_time := t\<rparr>\<rparr>)
                                   None None None]\<rparr>"
      and ob: "get_observation M e0 = Inr ob"
    unfolding reset_finish_def by (auto simp: Let_def elim!: bind_err_InrE)
  from ob obtain blocks where "orders_tensor M e0 (trading_symbols e0) = Inr blocks"
    unfolding get_observation_def by (auto simp: Let_def elim!: bind_err_InrE)
  from orders_tensor_Inr [OF this]
  have fit: "\<forall>s \<in> set (trading_symbols e0).
               length (symbol_orders M (simulator e0) s) \<le> symbol_max_orders e0" .
  have "symbol_max_orders e0 = symbol_max_orders e"
    and "hedge (simulator e0) = hedge (original_simulator e)"
    unfolding e0 using e4 by simp_all
  with fit one show ?thesis
    unfolding within_capacity_def by auto
qed

text \<open>
  Claim C7. For a simulator that keeps its books, the bound on the open orders (for
  every trading symbol at most \<^verbatim>\<open>symbol_max_orders\<close> in hedge mode, at most one otherwise)
  is an invariant: it is preserved by \<^verbatim>\<open>_apply_action\<close> and by the tick that follows, hence
  by every sequence of steps; and it holds throughout an episode, because a \<^verbatim>\<open>reset\<close>
  that returns has fitted the open orders into the orders tensor (\<^verbatim>\<open>__init__\<close> sets
  \<^verbatim>\<open>symbol_max_orders\<close> to one when hedging is off).
\<close>

theorem open_orders_within_capacity:
  fixes e :: "'x mt_env"
  assumes K: "keeps_books M"
  shows "(within_capacity M e \<and> apply_action M e action = Inr (e1, oi, ci) \<longrightarrow>
            within_capacity M e1
          \<and> within_capacity M (e1\<lparr>simulator := tick M (simulator e1) dt\<rparr>))
       \<and> (within_capacity M e \<and> run_steps M e actions = Inr (rs, e') \<longrightarrow>
            within_capacity M e')
       \<and> ((hedge (original_simulator e) \<or> symbol_max_orders e = 1)
          \<and> run_episode N M e seed actions = Inr (first, rs, e') \<longrightarrow>
            within_capacity M e')"
proof (intro conjI impI)
  assume A: "within_capacity M e \<and> apply_action M e action = Inr (e1, oi, ci)"
  then show inv1: "within_capacity M e1"
    using apply_action_capacity [OF K] by blast
  from inv1 show "within_capacity M (e1\<lparr>simulator := tick M (simulator e1) dt\<rparr>)"
  proof (rule within_capacity_mono)
    show "hedge (simulator (e1\<lparr>simulator := tick M (simulator e1) dt\<rparr>)) = hedge (simulator e1)"
      by (simp add: keeps_books_tick(1) [OF K])
    fix s
    show "length (symbol_orders M (simulator (e1\<lparr>simulator := tick M (simulator e1) dt\<rparr>)) s)
            \<le> length (symbol_orders M (simulator e1) s)"
      by (simp add: keeps_books_tick(2) [OF K])
  qed simp_all
next
  assume "within_capacity M e \<and> run_steps M e actions = Inr (rs, e')"
  then show "within_capacity M e'"
    using run_steps_capacity [OF K] by blast
next
  assume A: "(hedge (original_simulator e) \<or> symbol_max_orders e = 1)
          \<and> run_episode N M e seed actions = Inr (first, rs, e')"
  then obtain e0
    where r: "reset N M e seed = Inr (first, e0)" and s: "run_steps M e0 actions = Inr (rs, e')"
    unfolding run_episode_def by (auto elim!: bind_err_InrE)
  from A reset_capacity [OF r] have "within_capacity M e0"
    by blast
  from run_steps_capacity [OF K this s] show "within_capacity M e'" .
qed

lemma demo_keeps_books: "keeps_books demo_simulator"
proof -
  have close: "\<And>sim ord s.
      hedge (snd (demo_close_order sim ord)) = hedge sim
    \<and> length (demo_symbol_orders (snd (demo_close_order sim ord)) s)
        \<le> length (demo_symbol_orders sim s)
    \<and> demo_symbol_orders (snd (demo_close_order sim ord)) s
        = remove1 ord (demo_symbol_orders sim s)"
    by (simp add: demo_symbol_orders_def demo_close_order_def filter_remove1 length_remove1)
  have create: "\<And>sim ot symbol v f s.
         hedge (snd (demo_create_order sim ot symbol v f)) = hedge sim
       \<and> (s \<noteq> symbol \<longrightarrow>
            length (demo_symbol_orders (snd (demo_create_order sim ot symbol v f)) s)
              \<le> length (demo_symbol_orders sim s))
       \<and> (hedge sim \<longrightarrow>
            length (demo_symbol_orders (snd (demo_create_order sim ot symbol v f)) symbol)
              \<le> Suc (length (demo_symbol_orders sim symbol)))
       \<and> (\<not> hedge sim \<longrightarrow>
            length (demo_symbol_orders (snd (demo_create_order sim ot symbol v f)) symbol)
              \<le> max (Suc 0) (length (demo_symbol_orders sim symbol)))"
  proof -
    fix sim :: "order list simulator" and ot symbol v f s
    have other: "s \<noteq> symbol \<Longrightarrow>
        filter (\<lambda>ord. order_symbol ord = s) (filter (\<lambda>x. order_symbol x \<noteq> symbol) (internal sim))
        = filter (\<lambda>ord. order_symbol ord = s) (internal sim)"
      by (auto intro: filter_cong)
    have own: "filter (\<lambda>ord. order_symbol ord = symbol)
                 (filter (\<lambda>x. order_symbol x \<noteq> symbol) (internal sim)) = []"
      by (simp add: filter_empty_conv)
    show "hedge (snd (demo_create_order sim ot symbol v f)) = hedge sim
       \<and> (s \<noteq> symbol \<longrightarrow>
            length (demo_symbol_orders (snd (demo_create_order sim ot symbol v f)) s)
              \<le> length (demo_symbol_orders sim s))
       \<and> (hedge sim \<longrightarrow>
            length (demo_symbol_orders (snd (demo_create_order sim ot symbol v f)) symbol)
              \<le> Suc (length (demo_symbol_orders sim symbol)))
       \<and> (\<not> hedge sim \<longrightarrow>
            length (demo_symbol_orders (snd (demo_create_order sim ot symbol v f)) symbol)
              \<le> max (Suc 0) (length (demo_symbol_orders sim symbol)))"
      using other own
      by (simp add: demo_symbol_orders_def demo_create_order_def Let_def)
  qed
  have tick: "\<And>sim dt s.
      hedge (demo_tick sim dt) = hedge sim
    \<and> demo_symbol_orders (demo_tick sim dt) s = demo_symbol_orders sim s"
    by (simp add: demo_tick_def demo_symbol_orders_def)
  show ?thesis
    unfolding keeps_books_def
    by (simp add: demo_simulator_def close create tick length_remove1)
qed

lemma demo_within_capacity: "within_capacity demo_simulator demo_env"
  by (simp add: within_capacity_def demo_defs)

lemma demo_apply_action:
  "\<exists>x. apply_action demo_simulator demo_env [0, 0, 0] = Inr x"
  by (simp add: apply_action_def apply_symbol_def symbol_open_def resolve_fee_def
      decision_defs demo_defs Let_def)

lemma demo_two_steps_book:
  "\<exists>first rs e'.
     run_episode demo_random demo_simulator demo_env (Some 0) [[0, 0, 0], [0, 0, 0]]
       = Inr (first, rs, e')
     \<and> length (symbol_orders demo_simulator (simulator e') ''EURUSD'') = 1
     \<and> hedge (simulator e') \<and> symbol_max_orders e' = 1"
  by (simp add: run_defs demo_defs Let_def)

theorem open_orders_within_capacity_witness:
  "keeps_books demo_simulator
   \<and> within_capacity demo_simulator demo_env
   \<and> (\<exists>e1 oi ci. apply_action demo_simulator demo_env [0, 0, 0] = Inr (e1, oi, ci)
         \<and> within_capacity demo_simulator e1
         \<and> within_capacity demo_simulator
             (e1\<lparr>simulator := tick demo_simulator (simulator e1) 60\<rparr>))
   \<and> run_steps demo_simulator demo_env [] = Inr ([], demo_env)
   \<and> hedge (original_simulator demo_env)
   \<and> (\<exists>first rs e'.
         run_episode demo_random demo_simulator demo_env (Some 0) [[0, 0, 0], [0, 0, 0]]
           = Inr (first, rs, e')
         \<and> within_capacity demo_simulator e'
         \<and> length (symbol_orders demo_simulator (simulator e') ''EURUSD'') = 1
         \<and> hedge (simulator e') \<and> symbol_max_orders e' = 1)"
proof -
  note K = demo_keeps_books
  note W = demo_within_capacity
  from demo_apply_action obtain e1 oi ci
    where a: "apply_action demo_simulator demo_env [0, 0, 0] = Inr (e1, oi, ci)"
    by (metis prod_cases3)
  from demo_two_steps_book obtain first rs e'
    where run: "run_episode demo_random demo_simulator demo_env (Some 0)
                  [[0, 0, 0], [0, 0, 0]] = Inr (first, rs, e')"
      and book: "length (symbol_orders demo_simulator (simulator e') ''EURUSD'') = 1"
        "hedge (simulator e')" "symbol_max_orders e' = 1"
    by blast
  have h: "hedge (original_simulator demo_env)"
    by (simp add: demo_env_def demo_state_def)
  have nil: "run_steps demo_simulator demo_env [] = Inr ([], demo_env)"
    by simp
  note inst = open_orders_within_capacity [OF K, where e = demo_env and action = "[0, 0, 0]"
      and ?e1.0 = e1 and oi = oi and ci = ci and dt = 60 and actions = "[[0, 0, 0], [0, 0, 0]]"
      and rs = rs and e' = e' and N = demo_random and seed = "Some 0" and first = first]
  from inst W a have one: "within_capacity demo_simulator e1
         \<and> within_capacity demo_simulator
             (e1\<lparr>simulator := tick demo_simulator (simulator e1) 60\<rparr>)"
    by blast
  from inst h run have two: "within_capacity demo_simulator e'"
    by blast
  from K W a one nil h run two book show ?thesis
    by blast
qed

end
